theory Spec2Isabelle
  imports Main "HOL-Library.Word" "HOL-Library.Char_ord"
begin

section \<open>The process environment and the value resolver\<close>

text \<open>
  Go strings are byte sequences, and so is \<^typ>\<open>string\<close>. The process environment is a
  partial map from names to values; the file system is seen only through \<open>os.ReadFile\<close>,
  so it is a partial map from paths to contents in which \<open>None\<close> stands for a read that
  fails, whatever the reason.
\<close>

record os_state =
  environ :: "string \<rightharpoonup> string"
  files :: "string \<rightharpoonup> string"

text \<open>The calls the resolver makes to the operating system, in the order it makes them.\<close>

datatype syscall = LookupEnv string | ReadFile string

text \<open>
  \<open>os.LookupEnv\<close>: the empty name is never found (\<open>syscall.Getenv\<close> returns early on it).
\<close>

definition os_LookupEnv :: "os_state \<Rightarrow> string \<Rightarrow> string option" where
  "os_LookupEnv os key = (if key = [] then None else environ os key)"

text \<open>
  \<open>os.ReadFile\<close>: opening the empty path fails (no such file or directory), every other
  path reads as the file system says.
\<close>

definition os_ReadFile :: "os_state \<Rightarrow> string \<Rightarrow> string option" where
  "os_ReadFile os path = (if path = [] then None else files os path)"

text \<open>
  \<open>Read\<close> (reader source, lines 146-161). The result is the pair \<open>(value, found)\<close> of the
  source together with the list of operating-system calls made to obtain it.
\<close>

definition Read :: "os_state \<Rightarrow> string \<Rightarrow> (string \<times> bool) \<times> syscall list" where
  "Read os key =
     (case os_LookupEnv os key of
        Some raw \<Rightarrow> ((raw, True), [LookupEnv key])
      | None \<Rightarrow>
          (case os_LookupEnv os (key @ ''_FILE'') of
             None \<Rightarrow> (([], False), [LookupEnv key, LookupEnv (key @ ''_FILE'')])
           | Some path \<Rightarrow>
               (case os_ReadFile os path of
                  None \<Rightarrow>
                    (([], False), [LookupEnv key, LookupEnv (key @ ''_FILE''), ReadFile path])
                | Some raw \<Rightarrow>
                    ((raw, True), [LookupEnv key, LookupEnv (key @ ''_FILE''), ReadFile path]))))"

section \<open>The parts of the Go standard library the decoders call\<close>

subsection \<open>\<open>strings.Split\<close> with a one-byte separator\<close>

text \<open>
  \<open>strings.Split(s, sep)\<close> cuts \<open>s\<close> at every occurrence of \<open>sep\<close>, from left to right,
  and returns the pieces between them; the source only ever passes the separator \<open>","\<close>.
\<close>

fun Split :: "string \<Rightarrow> char \<Rightarrow> string list" where
  "Split [] sep = [[]]"
| "Split (c # cs) sep =
     (if c = sep then [] # Split cs sep
      else (case Split cs sep of [] \<Rightarrow> [[c]] | p # ps \<Rightarrow> (c # p) # ps))"

text \<open>
  \<open>strings.Join\<close> with a one-byte separator, the inverse against which \<open>Split\<close> is
  stated.
\<close>

fun Join :: "string list \<Rightarrow> char \<Rightarrow> string" where
  "Join [] sep = []"
| "Join [p] sep = p"
| "Join (p # q # ps) sep = p @ sep # Join (q # ps) sep"

subsection \<open>\<open>strings.ToLower\<close> and \<open>strings.TrimSpace\<close>\<close>

text \<open>
  Both functions have a byte-wise path for strings of ASCII bytes and hand every other
  string to the Unicode tables. The ASCII paths are written out; the Unicode paths are
  fields of \<open>golib\<close> below.
\<close>

definition isASCII :: "string \<Rightarrow> bool" where
  "isASCII s = (\<forall>c \<in> set s. (of_char c :: nat) < 128)"

definition lower_byte :: "char \<Rightarrow> char" where
  "lower_byte c =
     (if CHR ''A'' \<le> c \<and> c \<le> CHR ''Z'' then char_of ((of_char c :: nat) + 32) else c)"

definition asciiSpace :: "char \<Rightarrow> bool" where
  "asciiSpace c = (c \<in> {CHR 0x09, CHR 0x0A, CHR 0x0B, CHR 0x0C, CHR 0x0D, CHR '' ''})"

text \<open>
  For stating what the level decoder accepts: a string without its leading and trailing
  ASCII spaces, and the relation "\<open>raw\<close> is \<open>w\<close> up to letter case, between ASCII spaces".
\<close>

definition trimmed :: "string \<Rightarrow> string" where
  "trimmed s = rev (dropWhile asciiSpace (rev (dropWhile asciiSpace s)))"

definition folds_to :: "string \<Rightarrow> string \<Rightarrow> bool" where
  "folds_to raw w =
     (\<exists>pre mid post. raw = pre @ mid @ post \<and> list_all asciiSpace pre \<and> list_all asciiSpace post
        \<and> map lower_byte mid = w)"

subsection \<open>\<open>strconv.ParseUint\<close>, \<open>strconv.ParseInt\<close> and \<open>strconv.ParseBool\<close>\<close>

datatype numerr = ErrSyntax | ErrRange

text \<open>
  The errors a decoder can return: a \<open>strconv.NumError\<close> (function, input, cause), the
  level decoder's own error carrying the raw input it quotes, and the errors of the
  library parsers that stay abstract.
\<close>

datatype liberror =
    NumError string string numerr
  | InvalidLevel string
  | LibError string

text \<open>
  The digit loop of \<open>ParseUint\<close> in base 10 on unsigned 64-bit arithmetic. A letter is a
  digit of a larger base and so a syntax error too.
\<close>

definition digit_of :: "char \<Rightarrow> 8 word option" where
  "digit_of c =
     (if CHR ''0'' \<le> c \<and> c \<le> CHR ''9'' then Some (of_char c - of_char CHR ''0'')
      else if CHR ''a'' \<le> lower_byte c \<and> lower_byte c \<le> CHR ''z''
        then Some (of_char (lower_byte c) - of_char CHR ''a'' + 10)
      else None)"

definition maxUint64 :: "64 word" where
  "maxUint64 = push_bit 64 1 - 1"

fun ParseUint_loop :: "64 word \<Rightarrow> 64 word \<Rightarrow> string \<Rightarrow> 64 word \<times> numerr option" where
  "ParseUint_loop maxVal n [] = (n, None)"
| "ParseUint_loop maxVal n (c # cs) =
     (case digit_of c of
        None \<Rightarrow> (0, Some ErrSyntax)
      | Some d \<Rightarrow>
          if d \<ge> 10 then (0, Some ErrSyntax)
          else if n \<ge> maxUint64 div 10 + 1 then (maxVal, Some ErrRange)
          else
            (let n' = n * 10; n1 = n' + ucast d
             in if n1 < n' \<or> n1 > maxVal then (maxVal, Some ErrRange)
                else ParseUint_loop maxVal n1 cs))"

text \<open>\<open>ParseUint(s, 10, bitSize)\<close> for the bit sizes 8, 16, 32 and 64 the decoders pass.\<close>

definition ParseUint :: "string \<Rightarrow> nat \<Rightarrow> 64 word \<times> liberror option" where
  "ParseUint s bitSize =
     (if s = [] then (0, Some (NumError ''ParseUint'' s ErrSyntax))
      else
        (case ParseUint_loop (push_bit bitSize 1 - 1) 0 s of
           (n, None) \<Rightarrow> (n, None)
         | (n, Some e) \<Rightarrow> (n, Some (NumError ''ParseUint'' s e))))"

text \<open>
  \<open>ParseInt(s, 10, bitSize)\<close>: an optional sign, then \<open>ParseUint\<close> on the rest and the
  range check against \<open>2^(bitSize-1)\<close>. The result is the two's-complement \<open>int64\<close>.
\<close>

definition ParseInt :: "string \<Rightarrow> nat \<Rightarrow> 64 word \<times> liberror option" where
  "ParseInt s0 bitSize =
     (case s0 of
        [] \<Rightarrow> (0, Some (NumError ''ParseInt'' s0 ErrSyntax))
      | c # cs \<Rightarrow>
          (let neg = (c = CHR ''-'');
               s = (if c = CHR ''+'' \<or> c = CHR ''-'' then cs else s0);
               cutoff = push_bit (bitSize - 1) 1 :: 64 word
           in case ParseUint s bitSize of
                (un, Some (NumError f num ErrSyntax)) \<Rightarrow>
                   (0, Some (NumError ''ParseInt'' s0 ErrSyntax))
              | (un, _) \<Rightarrow>
                   if \<not> neg \<and> un \<ge> cutoff
                     then (cutoff - 1, Some (NumError ''ParseInt'' s0 ErrRange))
                   else if neg \<and> un > cutoff
                     then (- cutoff, Some (NumError ''ParseInt'' s0 ErrRange))
                   else (if neg then - un else un, None)))"

definition ParseBool :: "string \<Rightarrow> bool \<times> liberror option" where
  "ParseBool str =
     (if str \<in> {''1'', ''t'', ''T'', ''true'', ''TRUE'', ''True''} then (True, None)
      else if str \<in> {''0'', ''f'', ''F'', ''false'', ''FALSE'', ''False''} then (False, None)
      else (False, Some (NumError ''ParseBool'' str ErrSyntax)))"

text \<open>
  For stating what the integer decoders accept: the base-10 numerals, a non-empty run of
  the digits 0 to 9, optionally signed, and the numbers they denote.
\<close>

definition is_digit :: "char \<Rightarrow> bool" where
  "is_digit c = (CHR ''0'' \<le> c \<and> c \<le> CHR ''9'')"

definition digit_value :: "char \<Rightarrow> nat" where
  "digit_value c = of_char c - 48"

definition decimal_acc :: "nat \<Rightarrow> string \<Rightarrow> nat" where
  "decimal_acc n cs = foldl (\<lambda>n c. 10 * n + digit_value c) n cs"

definition decimal_value :: "string \<Rightarrow> nat" where
  "decimal_value cs = decimal_acc 0 cs"

definition decimal :: "string \<Rightarrow> bool" where
  "decimal cs = (cs \<noteq> [] \<and> list_all is_digit cs)"

definition signed_decimal :: "string \<Rightarrow> bool" where
  "signed_decimal s =
     (case s of [] \<Rightarrow> False
      | c # cs \<Rightarrow> if c = CHR ''+'' \<or> c = CHR ''-'' then decimal cs else decimal s)"

definition signed_decimal_value :: "string \<Rightarrow> int" where
  "signed_decimal_value s =
     (case s of [] \<Rightarrow> 0
      | c # cs \<Rightarrow>
          if c = CHR ''-'' then - int (decimal_value cs)
          else if c = CHR ''+'' then int (decimal_value cs)
          else int (decimal_value s))"

text \<open>
  The library functions whose internals no property below depends on are taken as given:
  the float and time parsers, the conversion to \<open>float32\<close>, and the Unicode paths of
  \<open>strings.ToLower\<close> (\<open>strings.Map(unicode.ToLower, s)\<close>) and \<open>strings.TrimSpace\<close>
  (\<open>TrimFunc\<close> and \<open>TrimRightFunc\<close> with \<open>unicode.IsSpace\<close>). Floats are their IEEE-754 bit
  patterns, a duration is its \<open>int64\<close> count of nanoseconds.
\<close>

datatype gotime = GoTime int int int

record golib =
  ParseFloat :: "string \<Rightarrow> nat \<Rightarrow> 64 word \<times> liberror option"
  float32 :: "64 word \<Rightarrow> 32 word"
  time_Parse_RFC3339 :: "string \<Rightarrow> gotime \<times> liberror option"
  time_ParseDuration :: "string \<Rightarrow> 64 word \<times> liberror option"
  unicode_ToLower :: "string \<Rightarrow> string"
  unicode_TrimSpace :: "string \<Rightarrow> string"
  unicode_TrimRightSpace :: "string \<Rightarrow> string"

definition ToLower :: "golib \<Rightarrow> string \<Rightarrow> string" where
  "ToLower lib s = (if isASCII s then map lower_byte s else unicode_ToLower lib s)"

text \<open>
  \<open>TrimSpace\<close> skips ASCII spaces from the left; if the first byte left is not ASCII it
  falls back to the Unicode trim of what is left. Otherwise it skips ASCII spaces from the
  right, and falls back to the Unicode right-trim if the last byte left is not ASCII.
\<close>

definition TrimSpace :: "golib \<Rightarrow> string \<Rightarrow> string" where
  "TrimSpace lib s =
     (let s1 = dropWhile asciiSpace s
      in case s1 of
           [] \<Rightarrow> []
         | c # _ \<Rightarrow>
             if (of_char c :: nat) \<ge> 128 then unicode_TrimSpace lib s1
             else
               (let s2 = rev (dropWhile asciiSpace (rev s1))
                in if (of_char (last s2) :: nat) \<ge> 128 then unicode_TrimRightSpace lib s2
                   else s2))"

section \<open>Errors of the package\<close>

datatype Err =
    ErrNotPtr | ErrNotStructPtr
  | ErrFieldUnexported | ErrFieldNoEnvTag | ErrFieldDecode | ErrFieldUnsupported
  | ErrFieldRequired

fun Error :: "Err \<Rightarrow> string" where
  "Error ErrNotPtr = ''not a pointer''"
| "Error ErrNotStructPtr = ''not a pointer to struct''"
| "Error ErrFieldUnexported = ''field is unexported''"
| "Error ErrFieldNoEnvTag = ''no env tag''"
| "Error ErrFieldDecode = ''field decode''"
| "Error ErrFieldUnsupported = ''unsupported field type''"
| "Error ErrFieldRequired = ''field is required''"

text \<open>
  An error value is one of the constants or one of the five \<open>fmt.Errorf\<close> wrappings of
  the source; each wrapping keeps the operands of its format string.
\<close>

datatype error =
    Sentinel Err
  | Errorf_required string
  | Errorf_decode liberror
  | Errorf_unsupported string
  | Errorf_field string error
  | Errorf_field_slice string

text \<open>
  \<open>errors.Is\<close> against one of the constants follows the \<open>%w\<close> operands. The library
  errors wrapped by \<open>Errorf_decode\<close> are never one of the package's constants.
\<close>

fun errors_Is :: "error \<Rightarrow> Err \<Rightarrow> bool" where
  "errors_Is (Sentinel e) target = (e = target)"
| "errors_Is (Errorf_required envName) target = (target = ErrFieldRequired)"
| "errors_Is (Errorf_decode err) target = (target = ErrFieldDecode)"
| "errors_Is (Errorf_unsupported typeName) target = (target = ErrFieldUnsupported)"
| "errors_Is (Errorf_field name err) target = errors_Is err target"
| "errors_Is (Errorf_field_slice name) target = (target = ErrFieldDecode)"

section \<open>Types, values and structure fields as reflection shows them\<close>

datatype Kind =
    Invalid | Bool | Int_kind | Int8 | Int16 | Int32 | Int64
  | Uint | Uint8 | Uint16 | Uint32 | Uint64 | Uintptr
  | Float32 | Float64 | Complex64 | Complex128
  | Array | Chan | Func | Interface | Map | Ptr | Slice | String | Struct | UnsafePointer

text \<open>
  A type is what \<open>String()\<close>, \<open>Kind()\<close> and \<open>Elem()\<close> say about it. A slice or pointer
  type has its element type and, if it is a named type, its name.
\<close>

datatype rtype =
    Basic string Kind
  | SliceT "string option" rtype
  | PtrT "string option" rtype

fun String_of :: "rtype \<Rightarrow> string" where
  "String_of (Basic name k) = name"
| "String_of (SliceT None t) = ''[]'' @ String_of t"
| "String_of (SliceT (Some name) t) = name"
| "String_of (PtrT None t) = ''*'' @ String_of t"
| "String_of (PtrT (Some name) t) = name"

fun Kind_of :: "rtype \<Rightarrow> Kind" where
  "Kind_of (Basic name k) = k"
| "Kind_of (SliceT name t) = Slice"
| "Kind_of (PtrT name t) = Ptr"

text \<open>
  \<open>Elem\<close> of a type that has no element type is written as the type of kind \<open>Invalid\<close>,
  which the checks of \<open>decodeField\<close> on \<open>Elem().Kind()\<close> ask about.
\<close>

fun Elem :: "rtype \<Rightarrow> rtype" where
  "Elem (Basic name k) = Basic [] Invalid"
| "Elem (SliceT name t) = t"
| "Elem (PtrT name t) = t"

text \<open>
  A value is its kind and payload; \<open>'i\<close> is the platform's native integer type (\<open>int\<close>
  and \<open>uint\<close> have its width). A pointer is nil or the address of a cell of the heap; a
  slice is nil or its elements. \<open>VZero k\<close> is the zero value of a type of a kind without
  a payload of its own here. The heap holds the cells that pointer fields point to; the
  fields of the structure being populated are kept apart from it, and two pointers may
  share a cell.
\<close>

datatype 'i val =
    VBool bool
  | VInt 'i | VInt8 "8 word" | VInt16 "16 word" | VInt32 "32 word" | VInt64 "64 word"
  | VUint 'i | VUint8 "8 word" | VUint16 "16 word" | VUint32 "32 word" | VUint64 "64 word"
  | VFloat32 "32 word" | VFloat64 "64 word"
  | VString string
  | VSlice "'i val list option"
  | VPtr "nat option"
  | VTime gotime
  | VZero Kind

type_synonym 'i heap = "'i val list"

fun val_Kind :: "'i val \<Rightarrow> Kind" where
  "val_Kind (VBool b) = Bool"
| "val_Kind (VInt i) = Int_kind"
| "val_Kind (VInt8 i) = Int8"
| "val_Kind (VInt16 i) = Int16"
| "val_Kind (VInt32 i) = Int32"
| "val_Kind (VInt64 i) = Int64"
| "val_Kind (VUint i) = Uint"
| "val_Kind (VUint8 i) = Uint8"
| "val_Kind (VUint16 i) = Uint16"
| "val_Kind (VUint32 i) = Uint32"
| "val_Kind (VUint64 i) = Uint64"
| "val_Kind (VFloat32 f) = Float32"
| "val_Kind (VFloat64 f) = Float64"
| "val_Kind (VString s) = String"
| "val_Kind (VSlice xs) = Slice"
| "val_Kind (VPtr p) = Ptr"
| "val_Kind (VTime t) = Struct"
| "val_Kind (VZero k) = k"

text \<open>The zero value of a type, as \<open>reflect.New\<close> and \<open>reflect.MakeSlice\<close> produce it.\<close>

definition Zero :: "rtype \<Rightarrow> ('w::len) word val" where
  "Zero t =
     (case Kind_of t of
        Bool \<Rightarrow> VBool False
      | Int_kind \<Rightarrow> VInt 0 | Int8 \<Rightarrow> VInt8 0 | Int16 \<Rightarrow> VInt16 0 | Int32 \<Rightarrow> VInt32 0
      | Int64 \<Rightarrow> VInt64 0
      | Uint \<Rightarrow> VUint 0 | Uint8 \<Rightarrow> VUint8 0 | Uint16 \<Rightarrow> VUint16 0 | Uint32 \<Rightarrow> VUint32 0
      | Uint64 \<Rightarrow> VUint64 0
      | Float32 \<Rightarrow> VFloat32 0 | Float64 \<Rightarrow> VFloat64 0
      | String \<Rightarrow> VString []
      | Slice \<Rightarrow> VSlice None
      | Ptr \<Rightarrow> VPtr None
      | Struct \<Rightarrow> (if String_of t = ''time.Time'' then VTime (GoTime 0 0 0) else VZero Struct)
      | k \<Rightarrow> VZero k)"

text \<open>
  A structure field: its name, its type, the value of the \<open>env\<close> key of its tag (empty
  when the tag has none) and whether it is exported. The structure is reached through a
  pointer, so a field's value can be set exactly when the field is exported.
\<close>

record StructField =
  Name :: string
  Type :: rtype
  Tag :: string
  Exported :: bool

definition CanSet :: "StructField \<Rightarrow> bool" where
  "CanSet field = Exported field"

section \<open>The decoder table\<close>

type_synonym 'i DecoderFn = "string \<Rightarrow> 'i val \<times> liberror option"

text \<open>The four levels of \<open>log/slog\<close>; \<open>slog.Level\<close> is a named \<open>int\<close>.\<close>

definition LevelDebug :: "('w::len) word val" where "LevelDebug = VInt (- 4)"
definition LevelInfo :: "('w::len) word val" where "LevelInfo = VInt 0"
definition LevelWarn :: "('w::len) word val" where "LevelWarn = VInt 4"
definition LevelError :: "('w::len) word val" where "LevelError = VInt 8"

text \<open>
  \<open>decoders\<close> (struct.go, lines 16-49), in the order of the source. A conversion such
  as \<open>int8(v)\<close> or \<open>int(v)\<close> of the parsed 64-bit value keeps its low bits when the
  target is narrower; \<open>scast\<close> reads the source as signed, \<open>ucast\<close> as unsigned.
\<close>

definition decoders :: "golib \<Rightarrow> (string \<times> ('w::len) word DecoderFn) list" where
  "decoders lib =
    [(''string'', \<lambda>raw. (VString raw, None)),
     (''[]uint8'', \<lambda>raw. (VSlice (Some (map (\<lambda>c. VUint8 (of_char c)) raw)), None)),
     (''[]string'', \<lambda>raw. (VSlice (Some (map VString (Split raw CHR '',''))), None)),
     (''int'', \<lambda>raw. case ParseInt raw 64 of (v, err) \<Rightarrow> (VInt (scast v), err)),
     (''int8'', \<lambda>raw. case ParseInt raw 8 of (v, err) \<Rightarrow> (VInt8 (scast v), err)),
     (''int16'', \<lambda>raw. case ParseInt raw 16 of (v, err) \<Rightarrow> (VInt16 (scast v), err)),
     (''int32'', \<lambda>raw. case ParseInt raw 32 of (v, err) \<Rightarrow> (VInt32 (scast v), err)),
     (''int64'', \<lambda>raw. case ParseInt raw 64 of (v, err) \<Rightarrow> (VInt64 v, err)),
     (''uint'', \<lambda>raw. case ParseUint raw 64 of (v, err) \<Rightarrow> (VUint (ucast v), err)),
     (''uint8'', \<lambda>raw. case ParseUint raw 8 of (v, err) \<Rightarrow> (VUint8 (ucast v), err)),
     (''uint16'', \<lambda>raw. case ParseUint raw 16 of (v, err) \<Rightarrow> (VUint16 (ucast v), err)),
     (''uint32'', \<lambda>raw. case ParseUint raw 32 of (v, err) \<Rightarrow> (VUint32 (ucast v), err)),
     (''uint64'', \<lambda>raw. case ParseUint raw 64 of (v, err) \<Rightarrow> (VUint64 v, err)),
     (''float32'', \<lambda>raw. case ParseFloat lib raw 32 of (v, err) \<Rightarrow> (VFloat32 (float32 lib v), err)),
     (''float64'', \<lambda>raw. case ParseFloat lib raw 64 of (v, err) \<Rightarrow> (VFloat64 v, err)),
     (''bool'', \<lambda>raw. case ParseBool raw of (v, err) \<Rightarrow> (VBool v, err)),
     (''time.Time'', \<lambda>raw. case time_Parse_RFC3339 lib raw of (v, err) \<Rightarrow> (VTime v, err)),
     (''time.Duration'', \<lambda>raw. case time_ParseDuration lib raw of (v, err) \<Rightarrow> (VInt64 v, err)),
     (''slog.Level'', \<lambda>raw.
        (let s = TrimSpace lib (ToLower lib raw)
         in if s = ''debug'' then (LevelDebug, None)
            else if s = ''warn'' then (LevelWarn, None)
            else if s = ''error'' then (LevelError, None)
            else if s = ''info'' then (LevelInfo, None)
            else (LevelInfo, Some (InvalidLevel raw))))]"

section \<open>Decoding one field\<close>

text \<open>
  The tag parsing of \<open>decodeField\<close> (struct.go, lines 125-131): the variable name and the
  required flag.
\<close>

definition binding :: "string \<Rightarrow> string \<times> bool" where
  "binding tag =
     (let parts = Split tag CHR '','';
          envName = parts ! 0;
          required = (length parts > 1 \<and> parts ! 1 = ''required'')
      in (envName, required))"

text \<open>The decoder key of a field type (struct.go, lines 142-149).\<close>

definition typeName_of :: "rtype \<Rightarrow> string" where
  "typeName_of t =
     (let typeName = String_of t;
          typeName = (if Kind_of t = Ptr \<and> Kind_of (Elem t) \<noteq> Invalid
                      then String_of (Elem t) else typeName);
          typeName = (if Kind_of t = Slice \<and> Kind_of (Elem t) \<noteq> Invalid
                      then ''[]'' @ String_of (Elem t) else typeName)
      in typeName)"

text \<open>
  The loop over the table (struct.go, lines 152-156) skips every entry whose name is not
  the key; the names of the table are distinct, so the order of the visit does not matter.
\<close>

definition decoder_named :: "golib \<Rightarrow> string \<Rightarrow> ('w::len) word DecoderFn option" where
  "decoder_named lib typeName =
     map_option snd (find (\<lambda>(name, decoder). name = typeName) (decoders lib))"

text \<open>
  \<open>decodeField\<close> (struct.go, lines 119-164) returns the pair of the source: the decoded
  value, \<open>None\<close> for the nil interface, and the error, \<open>None\<close> for nil.
\<close>

definition decodeField ::
  "golib \<Rightarrow> os_state \<Rightarrow> StructField \<Rightarrow> ('w::len) word val option \<times> error option" where
  "decodeField lib os field =
     (let tag = Tag field
      in if tag = [] then (None, Some (Sentinel ErrFieldNoEnvTag))
         else
           (case binding tag of (envName, required) \<Rightarrow>
              (case fst (Read os envName) of (raw, isSet) \<Rightarrow>
                 if \<not> isSet then
                   (if required then (None, Some (Errorf_required envName)) else (None, None))
                 else
                   (let typeName = typeName_of (Type field)
                    in case decoder_named lib typeName of
                         Some decoder \<Rightarrow>
                           (case decoder raw of
                              (decoded, Some err) \<Rightarrow> (None, Some (Errorf_decode err))
                            | (decoded, None) \<Rightarrow> (Some decoded, None))
                       | None \<Rightarrow> (None, Some (Errorf_unsupported typeName))))))"

text \<open>
  A library whose abstract parsers reject every input and whose Unicode paths leave
  their input alone, for evaluating the definitions on concrete inputs.
\<close>

definition plainlib :: golib where
  "plainlib =
     \<lparr>ParseFloat = (\<lambda>s bitSize. (0, Some (LibError ''ParseFloat''))),
      float32 = (\<lambda>v. 0),
      time_Parse_RFC3339 = (\<lambda>s. (GoTime 0 0 0, Some (LibError ''time.Parse''))),
      time_ParseDuration = (\<lambda>s. (0, Some (LibError ''time.ParseDuration''))),
      unicode_ToLower = (\<lambda>s. s),
      unicode_TrimSpace = (\<lambda>s. s),
      unicode_TrimRightSpace = (\<lambda>s. s)\<rparr>"

text \<open>
  The same library with a Unicode lowering that, besides the ASCII letters, knows U+0130
  (LATIN CAPITAL LETTER I WITH DOT ABOVE, the bytes C4 B0 in UTF-8), whose lower case in
  Go's tables is the ASCII letter i.
\<close>

fun lower_dotted_I :: "string \<Rightarrow> string" where
  "lower_dotted_I (c # d # cs) =
     (if c = CHR 0xC4 \<and> d = CHR 0xB0 then CHR ''i'' # lower_dotted_I cs
      else lower_byte c # lower_dotted_I (d # cs))"
| "lower_dotted_I [c] = [lower_byte c]"
| "lower_dotted_I [] = []"

definition dottedlib :: golib where
  "dottedlib = plainlib\<lparr>unicode_ToLower := lower_dotted_I\<rparr>"

section \<open>Populating a structure\<close>

text \<open>
  What \<open>reflect.ValueOf(decoded)\<close> answers: it is valid unless \<open>decoded\<close> is the nil
  interface, and its kind is the kind of the value.
\<close>

definition IsValid :: "'i val option \<Rightarrow> bool" where
  "IsValid rv = (rv \<noteq> None)"

definition rv_Kind :: "'i val option \<Rightarrow> Kind" where
  "rv_Kind rv = (case rv of None \<Rightarrow> Invalid | Some v \<Rightarrow> val_Kind v)"

definition elems :: "'i val option \<Rightarrow> 'i val list" where
  "elems rv = (case rv of Some (VSlice (Some xs)) \<Rightarrow> xs | _ \<Rightarrow> [])"

definition Len :: "'i val option \<Rightarrow> nat" where
  "Len rv = length (elems rv)"

definition IsNil :: "'i val \<Rightarrow> bool" where
  "IsNil v = (case v of VPtr None \<Rightarrow> True | VSlice None \<Rightarrow> True | _ \<Rightarrow> False)"

definition MakeSlice :: "rtype \<Rightarrow> nat \<Rightarrow> ('w::len) word val" where
  "MakeSlice t n = VSlice (Some (replicate n (Zero (Elem t))))"

text \<open>\<open>fieldValue.Index(i).Set(x)\<close> on a slice value.\<close>

definition Index_Set :: "'i val \<Rightarrow> nat \<Rightarrow> 'i val \<Rightarrow> 'i val" where
  "Index_Set v i x = (case v of VSlice (Some xs) \<Rightarrow> VSlice (Some (xs[i := x])) | _ \<Rightarrow> v)"

text \<open>
  The copy loop (struct.go, lines 99-101): the elements of the decoded slice, the first
  of them at index \<open>i\<close>, are set one by one. The destination was made with the length of
  the decoded slice, so every index is in range.
\<close>

fun copy_elems :: "'i val \<Rightarrow> nat \<Rightarrow> 'i val list \<Rightarrow> 'i val" where
  "copy_elems fieldValue i [] = fieldValue"
| "copy_elems fieldValue i (x # xs) = copy_elems (Index_Set fieldValue i x) (Suc i) xs"

text \<open>\<open>fieldValue.Elem().Set(x)\<close> writes the cell a non-nil pointer points to.\<close>

definition Elem_Set :: "'i val \<Rightarrow> 'i val \<Rightarrow> 'i heap \<Rightarrow> 'i heap" where
  "Elem_Set v x h = (case v of VPtr (Some a) \<Rightarrow> h[a := x] | _ \<Rightarrow> h)"

text \<open>
  The body of the loop of \<open>ReadStruct\<close> (struct.go, lines 69-113) on one field and its
  current value. The result is the error returned from inside the body (\<open>None\<close>: the loop
  goes on to the next field), the field's value and the heap. \<open>reflect.New\<close> takes the
  next free cell of the heap. A value carries its kind and no type name, so the panic of
  \<open>Set\<close> on a value of another type than the destination's is outside this model; the
  table returns, under each key, a value of the type of that name.
\<close>

definition ReadStruct_field ::
  "golib \<Rightarrow> os_state \<Rightarrow> StructField \<Rightarrow> ('w::len) word val \<Rightarrow> 'w word heap
     \<Rightarrow> error option \<times> 'w word val \<times> 'w word heap" where
  "ReadStruct_field lib os field fieldValue h =
     (if \<not> CanSet field
        then (Some (Errorf_field (Name field) (Sentinel ErrFieldUnexported)), fieldValue, h)
      else
        (case decodeField lib os field of (decoded, err) \<Rightarrow>
           (case err of
              Some e \<Rightarrow>
                if errors_Is e ErrFieldNoEnvTag then (None, fieldValue, h)
                else (Some (Errorf_field (Name field) e), fieldValue, h)
            | None \<Rightarrow>
                (case decoded of
                   None \<Rightarrow> (None, fieldValue, h)
                 | Some d \<Rightarrow>
                     (let decodedValue = Some d
                      in case Kind_of (Type field) of
                           Slice \<Rightarrow>
                             if \<not> IsValid decodedValue \<or> rv_Kind decodedValue \<noteq> Slice
                               then (Some (Errorf_field_slice (Name field)), fieldValue, h)
                             else
                               (let fieldValue = MakeSlice (Type field) (Len decodedValue)
                                in (None, copy_elems fieldValue 0 (elems decodedValue), h))
                         | Ptr \<Rightarrow>
                             (case (if IsNil fieldValue
                                    then (VPtr (Some (length h)), h @ [Zero (Elem (Type field))])
                                    else (fieldValue, h)) of
                                (fieldValue, h) \<Rightarrow>
                                  if IsValid decodedValue
                                    then (None, fieldValue, Elem_Set fieldValue d h)
                                  else (None, fieldValue, h))
                         | _ \<Rightarrow>
                             if IsValid decodedValue then (None, d, h)
                             else (None, fieldValue, h))))))"

text \<open>
  The loop over the fields in declaration order: it returns at the first error, with the
  fields and the heap as they are then.
\<close>

fun ReadStruct_fields ::
  "golib \<Rightarrow> os_state \<Rightarrow> (StructField \<times> ('w::len) word val) list \<Rightarrow> 'w word heap
     \<Rightarrow> error option \<times> (StructField \<times> 'w word val) list \<times> 'w word heap" where
  "ReadStruct_fields lib os [] h = (None, [], h)"
| "ReadStruct_fields lib os ((field, fieldValue) # rest) h =
     (case ReadStruct_field lib os field fieldValue h of
        (Some err, fieldValue', h') \<Rightarrow> (Some err, (field, fieldValue') # rest, h')
      | (None, fieldValue', h') \<Rightarrow>
          (case ReadStruct_fields lib os rest h' of
             (err, rest', h'') \<Rightarrow> (err, (field, fieldValue') # rest', h'')))"

text \<open>
  The argument of \<open>ReadStruct\<close>: the nil interface, a value of a kind other than \<open>Ptr\<close>, a
  nil pointer, or a pointer to a structure with its fields or to a value of another kind.
  No Go value is \<open>NonPointer Ptr\<close> or \<open>OtherV Struct\<close>; the functions below are total on
  them all the same.
\<close>

datatype 'i pointee = StructV "(StructField \<times> 'i val) list" | OtherV Kind

datatype 'i arg = NilInterface | NonPointer Kind | NilPointer | Pointer "'i pointee"

fun arg_Kind :: "'i arg \<Rightarrow> Kind" where
  "arg_Kind NilInterface = Invalid"
| "arg_Kind (NonPointer k) = k"
| "arg_Kind NilPointer = Ptr"
| "arg_Kind (Pointer p) = Ptr"

fun arg_IsNil :: "'i arg \<Rightarrow> bool" where
  "arg_IsNil NilPointer = True"
| "arg_IsNil v = False"

fun pointee_Kind :: "'i pointee \<Rightarrow> Kind" where
  "pointee_Kind (StructV fs) = Struct"
| "pointee_Kind (OtherV k) = k"

text \<open>
  \<open>ReadStruct\<close> (struct.go, lines 56-117) returns its error together with the argument
  and the heap as the call leaves them.
\<close>

definition ReadStruct ::
  "golib \<Rightarrow> os_state \<Rightarrow> ('w::len) word arg \<Rightarrow> 'w word heap
     \<Rightarrow> error option \<times> 'w word arg \<times> 'w word heap" where
  "ReadStruct lib os v h =
     (if arg_Kind v \<noteq> Ptr \<or> arg_IsNil v then (Some (Sentinel ErrNotPtr), v, h)
      else
        (case v of
           Pointer rv \<Rightarrow>
             if pointee_Kind rv \<noteq> Struct then (Some (Sentinel ErrNotStructPtr), v, h)
             else
               (case rv of
                  StructV fs \<Rightarrow>
                    (case ReadStruct_fields lib os fs h of
                       (err, fs', h') \<Rightarrow> (err, Pointer (StructV fs'), h'))
                | OtherV k \<Rightarrow> (None, v, h))
         | _ \<Rightarrow> (Some (Sentinel ErrNotStructPtr), v, h)))"

text \<open>The fields of the structure a pointer argument points to.\<close>

definition fields_of :: "'i arg \<Rightarrow> (StructField \<times> 'i val) list" where
  "fields_of v = (case v of Pointer (StructV fs) \<Rightarrow> fs | _ \<Rightarrow> [])"

text \<open>
  What populate returns when it stops with error \<open>e\<close> at a field: the fields before it as
  the call has left them, that field and the fields after it as they were, and the heap
  as it is then.
\<close>

definition halted ::
  "error \<Rightarrow> 'i arg \<Rightarrow> StructField \<Rightarrow> 'i val \<Rightarrow> (StructField \<times> 'i val) list \<Rightarrow> 'i heap
     \<Rightarrow> error option \<times> 'i arg \<times> 'i heap" where
  "halted e vpre field old post h1 =
     (Some e, Pointer (StructV (fields_of vpre @ (field, old) # post)), h1)"

text \<open>The field name a returned error carries in front.\<close>

definition field_named :: "error \<Rightarrow> string option" where
  "field_named e =
     (case e of
        Errorf_field name err \<Rightarrow> Some name
      | Errorf_field_slice name \<Rightarrow> Some name
      | _ \<Rightarrow> None)"

text \<open>An operating-system state given by its variables and its readable files.\<close>

definition os_of :: "(string \<times> string) list \<Rightarrow> (string \<times> string) list \<Rightarrow> os_state" where
  "os_of env fs = \<lparr>environ = map_of env, files = map_of fs\<rparr>"

text \<open>Concrete fields and types for evaluating the definitions.\<close>

abbreviation T_string :: rtype where "T_string \<equiv> Basic ''string'' String"

definition exported :: "string \<Rightarrow> rtype \<Rightarrow> string \<Rightarrow> StructField" where
  "exported name t tag = \<lparr>Name = name, Type = t, Tag = tag, Exported = True\<rparr>"

definition unexported :: "string \<Rightarrow> rtype \<Rightarrow> string \<Rightarrow> StructField" where
  "unexported name t tag = \<lparr>Name = name, Type = t, Tag = tag, Exported = False\<rparr>"

section \<open>Auxiliary facts\<close>

subsection \<open>The loop over the fields\<close>

lemma ReadStruct_fields_length:
  "ReadStruct_fields lib os fs h = (e, fs', h') \<Longrightarrow> map fst fs' = map fst fs"
  by (induction fs arbitrary: h e fs' h') (auto split: prod.splits option.splits)

lemma ReadStruct_fields_append:
  "ReadStruct_fields lib os (pre @ post) h =
     (case ReadStruct_fields lib os pre h of
        (Some e, pre', h') \<Rightarrow> (Some e, pre' @ post, h')
      | (None, pre', h') \<Rightarrow>
          (case ReadStruct_fields lib os post h' of (e, post', h'') \<Rightarrow> (e, pre' @ post', h'')))"
  by (induction pre arbitrary: h) (auto split: prod.splits option.splits)

lemma ReadStruct_field_error_frame:
  "ReadStruct_field lib os field v h = (Some e, v', h') \<Longrightarrow> v' = v \<and> h' = h"
  by (auto simp: ReadStruct_field_def Let_def split: if_splits prod.splits option.splits Kind.splits)

lemma ReadStruct_field_error_named:
  "ReadStruct_field lib os field v h = (Some e, v', h') \<Longrightarrow> field_named e = Some (Name field)"
  by (auto simp: ReadStruct_field_def field_named_def Let_def split: if_splits prod.splits option.splits Kind.splits)

lemma ReadStruct_fields_first_failure:
  "ReadStruct_fields lib os fs h = (Some e, fs', h') \<Longrightarrow>
     \<exists>i < length fs.
        ReadStruct_fields lib os (take i fs) h = (None, take i fs', h')
      \<and> ReadStruct_field lib os (fst (fs ! i)) (snd (fs ! i)) h' = (Some e, snd (fs ! i), h')
      \<and> field_named e = Some (Name (fst (fs ! i)))
      \<and> drop i fs' = drop i fs"
proof (induction fs arbitrary: h fs' h')
  case Nil
  then show ?case by simp
next
  case (Cons fv rest)
  obtain field v where fv: "fv = (field, v)" by (cases fv)
  obtain e1 v1 h1 where step: "ReadStruct_field lib os field v h = (e1, v1, h1)"
    by (cases "ReadStruct_field lib os field v h")
  show ?case
  proof (cases e1)
    case (Some err)
    with Cons.prems fv step have res: "e = err" "fs' = (field, v1) # rest" "h' = h1"
      by auto
    from step Some have same: "v1 = v" "h1 = h"
      using ReadStruct_field_error_frame by blast+
    from step Some have named: "field_named err = Some (Name field)"
      using ReadStruct_field_error_named by blast
    have "ReadStruct_fields lib os (take 0 (fv # rest)) h = (None, take 0 fs', h')"
      using res same by simp
    moreover have "ReadStruct_field lib os (fst ((fv # rest) ! 0)) (snd ((fv # rest) ! 0)) h'
        = (Some e, snd ((fv # rest) ! 0), h')"
      using step Some res same fv by simp
    moreover have "field_named e = Some (Name (fst ((fv # rest) ! 0)))"
      using named res fv by simp
    moreover have "drop 0 fs' = drop 0 (fv # rest)"
      using res same fv by simp
    ultimately show ?thesis by (intro exI [of _ 0]) simp
  next
    case None
    obtain e2 rest' h2 where tail: "ReadStruct_fields lib os rest h1 = (e2, rest', h2)"
      by (cases "ReadStruct_fields lib os rest h1")
    with Cons.prems fv step None have res: "e2 = Some e" "fs' = (field, v1) # rest'" "h' = h2"
      by auto
    from Cons.IH [of h1 rest' h2] tail res obtain i where i:
      "i < length rest"
      "ReadStruct_fields lib os (take i rest) h1 = (None, take i rest', h2)"
      "ReadStruct_field lib os (fst (rest ! i)) (snd (rest ! i)) h2 = (Some e, snd (rest ! i), h2)"
      "field_named e = Some (Name (fst (rest ! i)))"
      "drop i rest' = drop i rest"
      by auto
    have "ReadStruct_fields lib os (take (Suc i) (fv # rest)) h = (None, take (Suc i) fs', h')"
      using i(2) step None fv res by simp
    then show ?thesis
      using i res by (intro exI [of _ "Suc i"]) simp
  qed
qed

lemma ReadStruct_struct:
  "ReadStruct lib os (Pointer (StructV fs)) h =
     (case ReadStruct_fields lib os fs h of (e, fs', h') \<Rightarrow> (e, Pointer (StructV fs'), h'))"
  by (simp add: ReadStruct_def)

lemma ReadStruct_fields_same_length:
  "ReadStruct_fields lib os fs h = (e, fs', h') \<Longrightarrow> length fs' = length fs"
  using ReadStruct_fields_length [of lib os fs h e fs' h'] by (metis length_map)

lemma ReadStruct_reaches_field:
  assumes "ReadStruct lib os (Pointer (StructV pre)) h = (None, vpre, h1)"
  shows "ReadStruct lib os (Pointer (StructV (pre @ (field, old) # post))) h =
     (case ReadStruct_field lib os field old h1 of
        (Some e, v', h2) \<Rightarrow> (Some e, Pointer (StructV (fields_of vpre @ (field, v') # post)), h2)
      | (None, v', h2) \<Rightarrow>
          (case ReadStruct_fields lib os post h2 of
             (e, post', h') \<Rightarrow> (e, Pointer (StructV (fields_of vpre @ (field, v') # post')), h')))"
  using assms
  by (auto simp: ReadStruct_struct ReadStruct_fields_append fields_of_def split: prod.splits option.splits)



lemma decodeField_untagged:
  "Tag field = [] \<Longrightarrow> decodeField lib os field = (None, Some (Sentinel ErrFieldNoEnvTag))"
  by (simp add: decodeField_def)

lemma ReadStruct_field_untagged:
  "Tag field = [] \<Longrightarrow> CanSet field \<Longrightarrow> ReadStruct_field lib os field v h = (None, v, h)"
  by (simp add: ReadStruct_field_def decodeField_untagged)

lemma ReadStruct_field_unexported:
  "\<not> CanSet field \<Longrightarrow> ReadStruct_field lib os field v h =
     (Some (Errorf_field (Name field) (Sentinel ErrFieldUnexported)), v, h)"
  by (simp add: ReadStruct_field_def)

lemma ReadStruct_fields_skip:
  assumes "\<And>h1. ReadStruct_field lib os field v h1 = (None, v, h1)"
  shows "ReadStruct_fields lib os (pre @ (field, v) # post) h =
     (case ReadStruct_fields lib os (pre @ post) h of
        (e, fs, h') \<Rightarrow> (e, take (length pre) fs @ (field, v) # drop (length pre) fs, h'))"
proof -
  obtain e1 pre' h1 where pre: "ReadStruct_fields lib os pre h = (e1, pre', h1)"
    by (cases "ReadStruct_fields lib os pre h")
  have len: "length pre' = length pre"
    using ReadStruct_fields_same_length [OF pre] .
  show ?thesis
    using pre len assms
    by (auto simp: ReadStruct_fields_append [of lib os pre] split: prod.splits option.splits)
qed

subsection \<open>Slices\<close>

lemma decoders_distinct: "distinct (map fst (decoders lib))"
  by (simp add: decoders_def)








subsection \<open>Fields that are left alone, and pointer fields\<close>

lemma ReadStruct_field_kept:
  assumes "\<And>h1. fst (snd (ReadStruct_field lib os field v h1)) = v"
  shows "fields_of (fst (snd (ReadStruct lib os (Pointer (StructV (pre @ (field, v) # post))) h)))
           ! length pre = (field, v)"
proof -
  obtain e1 pre' h1 where pre: "ReadStruct_fields lib os pre h = (e1, pre', h1)"
    by (cases "ReadStruct_fields lib os pre h")
  have len: "length pre' = length pre"
    using ReadStruct_fields_same_length [OF pre] .
  obtain e2 v2 h2 where step: "ReadStruct_field lib os field v h1 = (e2, v2, h2)"
    by (cases "ReadStruct_field lib os field v h1")
  have v2: "v2 = v"
    using assms [of h1] step by simp
  show ?thesis
    using pre len step v2
    by (auto simp: ReadStruct_struct ReadStruct_fields_append [of lib os pre] fields_of_def nth_append
             split: prod.splits option.splits)
qed

lemma decodeField_unresolved:
  assumes "Tag field \<noteq> []" and "\<not> snd (binding (Tag field))"
    and "\<not> snd (fst (Read os (fst (binding (Tag field)))))"
  shows "decodeField lib os field = (None, None)"
proof -
  obtain envName required where b: "binding (Tag field) = (envName, required)"
    by (cases "binding (Tag field)")
  obtain raw isSet where r: "fst (Read os envName) = (raw, isSet)"
    by (cases "fst (Read os envName)")
  show ?thesis
    using assms b r by (simp add: decodeField_def)
qed

lemma ReadStruct_field_frame_undecoded:
  "decodeField lib os field = (None :: ('w::len) word val option, err) \<Longrightarrow>
     snd (ReadStruct_field lib os field v h) = (v :: 'w word val, h)"
  by (cases err) (simp_all add: ReadStruct_field_def)

lemma ReadStruct_field_ptr:
  assumes "Kind_of (Type field) = Ptr" and "CanSet field"
    and "decodeField lib os field = (Some d, None)"
  shows "ReadStruct_field lib os field (VPtr None) h = (None, VPtr (Some (length h)), h @ [d])"
    and "a < length h \<Longrightarrow>
           ReadStruct_field lib os field (VPtr (Some a)) h = (None, VPtr (Some a), h[a := d])"
  using assms by (simp_all add: ReadStruct_field_def IsValid_def IsNil_def Elem_Set_def)

subsection \<open>Splitting, and the binding of a tag\<close>

lemma Split_nonempty: "Split s sep \<noteq> []"
  by (induction s) (auto split: list.splits)

lemma Split_no_sep: "p \<in> set (Split s sep) \<Longrightarrow> sep \<notin> set p"
  by (induction s arbitrary: p) (auto split: list.splits if_splits)

lemma Join_Cons: "ps \<noteq> [] \<Longrightarrow> Join ((c # p) # ps') sep = c # Join (p # ps') sep"
  by (cases ps') auto



lemma Split_without_sep: "sep \<notin> set s \<Longrightarrow> Split s sep = [s]"
  by (induction s) auto

lemma Split_at_first_sep: "sep \<notin> set a \<Longrightarrow> Split (a @ sep # b) sep = a # Split b sep"
  by (induction a) auto

lemma binding_one_segment:
  "CHR '','' \<notin> set name \<Longrightarrow> binding name = (name, False)"
  by (simp add: binding_def Split_without_sep)

lemma binding_two_segments:
  "CHR '','' \<notin> set name \<Longrightarrow> CHR '','' \<notin> set seg \<Longrightarrow>
     binding (name @ CHR '','' # seg) = (name, seg = ''required'')"
  by (simp add: binding_def Split_at_first_sep Split_without_sep)

lemma binding_more_segments:
  "CHR '','' \<notin> set name \<Longrightarrow> CHR '','' \<notin> set seg \<Longrightarrow>
     binding (name @ CHR '','' # seg @ CHR '','' # rest) = (name, seg = ''required'')"
  by (simp add: binding_def Split_at_first_sep Split_nonempty)

lemma binding_name_no_comma: "CHR '','' \<notin> set (fst (binding tag))"
  using Split_no_sep [of "Split tag CHR '','' ! 0" tag "CHR '',''"] Split_nonempty [of tag "CHR '',''"]
  by (cases "Split tag CHR '',''") (auto simp: binding_def Let_def)

lemma decodeField_ignores_other_segment:
  assumes "tag \<noteq> []" and "fst (binding tag) \<noteq> []" and "\<not> snd (binding tag)"
  shows "decodeField lib os (field\<lparr>Tag := tag\<rparr>) = decodeField lib os (field\<lparr>Tag := fst (binding tag)\<rparr>)"
proof -
  have "binding (fst (binding tag)) = (fst (binding tag), False)"
    using binding_name_no_comma by (rule binding_one_segment)
  moreover have "binding tag = (fst (binding tag), False)"
    using assms(3) by (metis prod.collapse)
  ultimately show ?thesis
    using assms(1,2) by (simp add: decodeField_def split: prod.splits)
qed




subsection \<open>Lower case and trimming of ASCII strings\<close>

lemma of_char_lower_byte:
  "(of_char (lower_byte c) :: nat) =
     (if 65 \<le> (of_char c :: nat) \<and> (of_char c :: nat) \<le> 90 then of_char c + 32 else of_char c)"
  by (simp add: lower_byte_def less_eq_char_def)

lemma char_eq_code: "(c = d) = ((of_char c :: nat) = of_char d)"
  by simp

lemma asciiSpace_code: "asciiSpace c = ((of_char c :: nat) \<in> {9, 10, 11, 12, 13, 32})"
  unfolding asciiSpace_def
  using char_eq_code [of c "CHR 0x09"] char_eq_code [of c "CHR 0x0A"] char_eq_code [of c "CHR 0x0B"]
    char_eq_code [of c "CHR 0x0C"] char_eq_code [of c "CHR 0x0D"] char_eq_code [of c "CHR '' ''"]
  by simp

lemma asciiSpace_lower_byte: "asciiSpace (lower_byte c) = asciiSpace c"
  unfolding asciiSpace_code of_char_lower_byte by auto

lemma lower_byte_space: "asciiSpace c \<Longrightarrow> lower_byte c = c"
  by (auto simp: asciiSpace_def lower_byte_def)

lemma isASCII_lower: "isASCII s \<Longrightarrow> isASCII (map lower_byte s)"
  by (auto simp: isASCII_def of_char_lower_byte)

lemma TrimSpace_ascii:
  assumes "isASCII s"
  shows "TrimSpace lib s = trimmed s"
proof (cases "dropWhile asciiSpace s")
  case Nil
  show ?thesis
    unfolding TrimSpace_def trimmed_def Let_def Nil by simp
next
  case (Cons c r)
  have sub: "set (c # r) \<subseteq> set s"
    using set_dropWhileD [of _ asciiSpace s] Cons by auto
  have c: "\<not> asciiSpace c"
    using hd_dropWhile [of asciiSpace s] Cons by simp
  let ?s2 = "rev (dropWhile asciiSpace (rev (c # r)))"
  have "c \<in> set (rev (c # r))" by simp
  with c have "dropWhile asciiSpace (rev (c # r)) \<noteq> []"
    by (metis dropWhile_eq_Nil_conv)
  then have ne: "?s2 \<noteq> []" by simp
  then have "last ?s2 \<in> set ?s2" by (rule last_in_set)
  moreover have "set ?s2 \<subseteq> set (c # r)"
    using set_dropWhileD [of _ asciiSpace "rev (c # r)"] by auto
  ultimately have "last ?s2 \<in> set s" using sub by blast
  with assms have l: "(of_char (last ?s2) :: nat) < 128"
    by (simp add: isASCII_def)
  from sub assms have h: "(of_char c :: nat) < 128"
    by (simp add: isASCII_def)
  show ?thesis
    unfolding TrimSpace_def trimmed_def Let_def Cons using h l by simp
qed

lemma trimmed_map_lower: "trimmed (map lower_byte s) = map lower_byte (trimmed s)"
proof -
  have "asciiSpace \<circ> lower_byte = asciiSpace"
    by (rule ext) (simp add: asciiSpace_lower_byte)
  then show ?thesis
    by (simp add: trimmed_def dropWhile_map rev_map)
qed

lemma trimmed_decomposition:
  "s = takeWhile asciiSpace s @ trimmed s @ rev (takeWhile asciiSpace (rev (dropWhile asciiSpace s)))"
proof -
  let ?d = "dropWhile asciiSpace s"
  have "rev ?d = takeWhile asciiSpace (rev ?d) @ dropWhile asciiSpace (rev ?d)"
    by simp
  then have "?d = rev (dropWhile asciiSpace (rev ?d)) @ rev (takeWhile asciiSpace (rev ?d))"
    by (metis rev_append rev_rev_ident)
  then have "takeWhile asciiSpace s @ ?d
      = takeWhile asciiSpace s @ trimmed s @ rev (takeWhile asciiSpace (rev ?d))"
    by (simp add: trimmed_def)
  then show ?thesis by simp
qed

lemma dropWhile_spaces_then:
  assumes "list_all asciiSpace pre" and "xs \<noteq> []" and "\<not> asciiSpace (hd xs)"
  shows "dropWhile asciiSpace (pre @ xs) = xs"
proof -
  have "dropWhile asciiSpace (pre @ xs) = dropWhile asciiSpace xs"
    by (rule dropWhile_append2) (use assms(1) in \<open>simp add: list_all_iff\<close>)
  also have "\<dots> = xs"
    using assms(2,3) by (cases xs) simp_all
  finally show ?thesis .
qed

lemma trimmed_core:
  assumes "list_all asciiSpace pre" and "list_all asciiSpace post"
    and "mid \<noteq> []" and "\<not> asciiSpace (hd mid)" and "\<not> asciiSpace (last mid)"
  shows "trimmed (pre @ mid @ post) = mid"
proof -
  have 1: "dropWhile asciiSpace (pre @ mid @ post) = mid @ post"
    using dropWhile_spaces_then [of pre "mid @ post"] assms(1,3,4) by simp
  have "dropWhile asciiSpace (rev post @ rev mid) = rev mid"
    using dropWhile_spaces_then [of "rev post" "rev mid"] assms(2,3,5)
    by (simp add: hd_rev list_all_iff)
  then show ?thesis
    using 1 by (simp add: trimmed_def)
qed

lemma folds_to_iff:
  assumes "w \<noteq> []" and "\<not> asciiSpace (hd w)" and "\<not> asciiSpace (last w)"
  shows "folds_to raw w \<longleftrightarrow> map lower_byte (trimmed raw) = w"
proof
  assume "folds_to raw w"
  then obtain pre mid post where d: "raw = pre @ mid @ post" "list_all asciiSpace pre"
      "list_all asciiSpace post" "map lower_byte mid = w"
    unfolding folds_to_def by blast
  from d(4) assms(1) have ne: "mid \<noteq> []" by auto
  have "hd w = lower_byte (hd mid)" "last w = lower_byte (last mid)"
    using d(4) ne by (auto simp: hd_map last_map)
  with assms(2,3) have "\<not> asciiSpace (hd mid)" "\<not> asciiSpace (last mid)"
    by (simp_all add: asciiSpace_lower_byte)
  with d ne show "map lower_byte (trimmed raw) = w"
    by (simp add: trimmed_core)
next
  assume m: "map lower_byte (trimmed raw) = w"
  have "list_all asciiSpace (takeWhile asciiSpace raw)"
    by (simp add: list_all_iff) (metis set_takeWhileD)
  moreover have "list_all asciiSpace (rev (takeWhile asciiSpace (rev (dropWhile asciiSpace raw))))"
    by (simp add: list_all_iff) (metis set_takeWhileD)
  ultimately show "folds_to raw w"
    unfolding folds_to_def using trimmed_decomposition [of raw] m by blast
qed

lemma TrimSpace_ToLower_ascii:
  "isASCII raw \<Longrightarrow> TrimSpace lib (ToLower lib raw) = map lower_byte (trimmed raw)"
  by (simp add: ToLower_def TrimSpace_ascii isASCII_lower trimmed_map_lower)

lemma decoder_named_level:
  "decoder_named lib ''slog.Level'' = Some (\<lambda>raw.
        (let s = TrimSpace lib (ToLower lib raw)
         in if s = ''debug'' then (LevelDebug, None)
            else if s = ''warn'' then (LevelWarn, None)
            else if s = ''error'' then (LevelError, None)
            else if s = ''info'' then (LevelInfo, None)
            else (LevelInfo, Some (InvalidLevel raw))))"
  by (simp add: decoder_named_def decoders_def)

lemma decodeField_found:
  assumes "Tag field \<noteq> []" and "fst (Read os (fst (binding (Tag field)))) = (raw, True)"
    and "decoder_named lib (typeName_of (Type field)) = Some dec"
  shows "decodeField lib os field =
     (case dec raw of
        (decoded, Some err) \<Rightarrow> (None, Some (Errorf_decode err))
      | (decoded, None) \<Rightarrow> (Some decoded, None))"
proof -
  obtain envName required where b: "binding (Tag field) = (envName, required)"
    by (cases "binding (Tag field)")
  with assms show ?thesis
    by (simp add: decodeField_def)
qed

lemma ReadStruct_field_decode_error:
  assumes "CanSet field"
    and "decodeField lib os field = (None :: 'w word val option, Some (Errorf_decode err))"
  shows "ReadStruct_field lib os field old h
           = (Some (Errorf_field (Name field) (Errorf_decode err)), old :: ('w::len) word val, h)"
  using assms by (simp add: ReadStruct_field_def)

subsection \<open>Parsing base-10 numerals\<close>

lemma digit_of_digit:
  assumes "is_digit c"
  shows "\<exists>d. digit_of c = Some d \<and> unat d = digit_value c \<and> digit_value c < 10"
proof -
  from assms have r: "48 \<le> (of_char c :: nat)" "(of_char c :: nat) \<le> 57"
    by (simp_all add: is_digit_def less_eq_char_def)
  have "(of_char c :: 8 word) - 48 = of_nat (of_char c) - of_nat 48"
    by (simp add: of_nat_of_char)
  also have "\<dots> = of_nat (of_char c - 48)"
    using r(1) by (simp only: of_nat_diff)
  finally have "unat ((of_char c :: 8 word) - 48) = unat (of_nat (of_char c - 48) :: 8 word)"
    by simp
  also have "\<dots> = of_char c - 48"
    using r(2) by (simp add: unat_of_nat)
  finally have u: "unat ((of_char c :: 8 word) - 48) = digit_value c"
    by (simp add: digit_value_def)
  have "digit_of c = Some (of_char c - 48)"
    using assms by (simp add: digit_of_def is_digit_def)
  with u r show ?thesis
    by (simp add: digit_value_def)
qed

lemma decimal_acc_ge: "n \<le> decimal_acc n cs"
  unfolding decimal_acc_def
proof (induction cs arbitrary: n)
  case Nil
  then show ?case by simp
next
  case (Cons c cs)
  have "n \<le> 10 * n + digit_value c" by simp
  also have "\<dots> \<le> foldl (\<lambda>n c. 10 * n + digit_value c) (10 * n + digit_value c) cs"
    by (rule Cons.IH)
  finally show ?case by simp
qed

lemma decimal_acc_Cons: "decimal_acc n (c # cs) = decimal_acc (10 * n + digit_value c) cs"
  by (simp add: decimal_acc_def)

lemma cutoff_value: "unat (maxUint64 div 10 + 1) = 1844674407370955162"
  by (simp add: maxUint64_def)

lemma ParseUint_loop_decimal:
  assumes "list_all is_digit cs" and "decimal_acc (unat n) cs \<le> unat maxVal"
  shows "ParseUint_loop maxVal n cs = (of_nat (decimal_acc (unat n) cs), None)"
  using assms
proof (induction cs arbitrary: n)
  case Nil
  then show ?case by (simp add: decimal_acc_def)
next
  case (Cons c cs)
  from Cons.prems(1) have dig: "is_digit c" and rest: "list_all is_digit cs"
    by simp_all
  from digit_of_digit [OF dig] obtain d where d: "digit_of c = Some d" "unat d = digit_value c"
      "digit_value c < 10"
    by blast
  let ?N = "unat n"
  have bound: "10 * ?N + digit_value c \<le> unat maxVal"
    using decimal_acc_ge [of "10 * ?N + digit_value c" cs] Cons.prems(2)
    by (simp add: decimal_acc_Cons)
  have max: "unat maxVal < 2 ^ 64"
    using unsigned_less [of maxVal] by simp
  have nd: "\<not> d \<ge> 10"
    using d(2,3) by (simp add: word_le_nat_alt)
  have nc: "\<not> n \<ge> maxUint64 div 10 + 1"
    using bound max by (simp add: word_le_nat_alt cutoff_value)
  have m: "unat (n * 10) = 10 * ?N"
    using bound max by (simp add: unat_word_ariths)
  have ud: "unat (ucast d :: 64 word) = digit_value c"
    using d(2,3) by (simp add: unsigned_ucast_eq take_bit_nat_eq_self)
  have a: "unat (n * 10 + ucast d) = 10 * ?N + digit_value c"
    using bound max m ud by (simp add: unat_word_ariths)
  have chk: "\<not> (n * 10 + ucast d < n * 10 \<or> n * 10 + ucast d > maxVal)"
    using a m bound by (simp add: word_less_nat_alt)
  have "ParseUint_loop maxVal (n * 10 + ucast d) cs
          = (of_nat (decimal_acc (unat (n * 10 + ucast d)) cs), None)"
    using Cons.IH [of "n * 10 + ucast d"] rest Cons.prems(2) a
    by (simp add: decimal_acc_Cons)
  then show ?case
    using d(1) nd nc chk a by (simp add: Let_def decimal_acc_Cons)
qed

lemma ParseUint_decimal:
  assumes "decimal s" and "decimal_value s < 2 ^ 64"
  shows "ParseUint s 64 = (of_nat (decimal_value s), None)"
proof -
  have "unat (push_bit 64 1 - 1 :: 64 word) = 2 ^ 64 - 1"
    by simp
  with assms(2) have "decimal_acc (unat (0 :: 64 word)) s \<le> unat (push_bit 64 1 - 1 :: 64 word)"
    by (simp add: decimal_value_def)
  from ParseUint_loop_decimal [OF _ this] assms(1)
  have "ParseUint_loop (push_bit 64 1 - 1) 0 s = (of_nat (decimal_value s), None)"
    by (simp add: decimal_def decimal_value_def)
  with assms(1) show ?thesis
    by (simp add: ParseUint_def decimal_def)
qed

lemma unat_of_decimal:
  "v < 2 ^ 64 \<Longrightarrow> unat (of_nat v :: 64 word) = v"
  by (simp add: unat_of_nat)

lemma ParseInt_unsigned:
  assumes "decimal cs" and "decimal_value cs < 2 ^ 63"
  shows "ParseUint cs 64 = (of_nat (decimal_value cs), None)"
    and "\<not> (of_nat (decimal_value cs) :: 64 word) \<ge> push_bit 63 1"
proof -
  from assms(2) have lt: "decimal_value cs < 2 ^ 64" by simp
  show "ParseUint cs 64 = (of_nat (decimal_value cs), None)"
    using ParseUint_decimal [OF assms(1) lt] .
  show "\<not> (of_nat (decimal_value cs) :: 64 word) \<ge> push_bit 63 1"
    using assms(2) lt by (simp add: word_le_nat_alt unat_of_decimal)
qed

lemma ParseInt_negative:
  assumes "decimal cs" and "decimal_value cs \<le> 2 ^ 63"
  shows "ParseUint cs 64 = (of_nat (decimal_value cs), None)"
    and "\<not> (of_nat (decimal_value cs) :: 64 word) > push_bit 63 1"
proof -
  from assms(2) have lt: "decimal_value cs < 2 ^ 64" by simp
  show "ParseUint cs 64 = (of_nat (decimal_value cs), None)"
    using ParseUint_decimal [OF assms(1) lt] .
  show "\<not> (of_nat (decimal_value cs) :: 64 word) > push_bit 63 1"
    using assms(2) lt by (simp add: word_less_nat_alt unat_of_decimal)
qed

lemma decimal_not_sign: "decimal (c # cs) \<Longrightarrow> c \<noteq> CHR ''+'' \<and> c \<noteq> CHR ''-''"
  by (auto simp: decimal_def is_digit_def less_eq_char_def)

lemma ParseInt_decimal:
  assumes "signed_decimal s" and "- (2 ^ 63) \<le> signed_decimal_value s"
    and "signed_decimal_value s < 2 ^ 63"
  shows "ParseInt s 64 = (of_int (signed_decimal_value s), None)"
proof (cases s)
  case Nil
  with assms(1) show ?thesis by (simp add: signed_decimal_def)
next
  case (Cons c cs)
  consider (minus) "c = CHR ''-''" | (plus) "c = CHR ''+''" | (digit) "c \<noteq> CHR ''-''" "c \<noteq> CHR ''+''"
    by blast
  then show ?thesis
  proof cases
    case minus
    with assms Cons have d: "decimal cs" and v: "decimal_value cs \<le> 2 ^ 63"
      by (simp_all add: signed_decimal_def signed_decimal_value_def)
    from ParseInt_negative [OF d v] show ?thesis
      using Cons minus by (simp add: ParseInt_def signed_decimal_value_def)
  next
    case plus
    with assms Cons have d: "decimal cs" and v: "decimal_value cs < 2 ^ 63"
      by (simp_all add: signed_decimal_def signed_decimal_value_def)
    from ParseInt_unsigned [OF d v] show ?thesis
      using Cons plus by (simp add: ParseInt_def signed_decimal_value_def)
  next
    case digit
    with assms Cons have d: "decimal (c # cs)" and v: "decimal_value (c # cs) < 2 ^ 63"
      by (simp_all add: signed_decimal_def signed_decimal_value_def)
    from ParseInt_unsigned [OF d v] show ?thesis
      using Cons digit by (simp add: ParseInt_def signed_decimal_value_def)
  qed
qed

lemma scast_int64:
  assumes "- (2 ^ 63) \<le> i" and "i < 2 ^ 63"
  shows "(scast (of_int i :: 64 word) :: 'w::len word) = of_int i"
proof -
  have "sint (of_int i :: 64 word) = i"
    using assms by (simp add: signed_of_int signed_take_bit_int_eq_self)
  then show ?thesis
    by (simp add: scast_eq)
qed

lemma ucast_uint64:
  assumes "v < 2 ^ 64"
  shows "(ucast (of_nat v :: 64 word) :: 'w::len word) = of_nat v"
proof -
  have "unat (of_nat v :: 64 word) = v"
    using assms by (rule unat_of_decimal)
  then have "uint (of_nat v :: 64 word) = int v"
    by (metis of_nat_unat)
  then show ?thesis
    by (simp add: ucast_eq)
qed

lemma decoder_named_int:
  "decoder_named lib ''int'' =
     Some (\<lambda>raw. case ParseInt raw 64 of (v, err) \<Rightarrow> (VInt (scast v), err))"
  "decoder_named lib ''uint'' =
     Some (\<lambda>raw. case ParseUint raw 64 of (v, err) \<Rightarrow> (VUint (ucast v), err))"
  by (simp_all add: decoder_named_def decoders_def)

subsection \<open>Fields on which the loop body fails\<close>

lemma ReadStruct_field_required:
  assumes "CanSet field" and "Tag field \<noteq> []" and "snd (binding (Tag field))"
    and "\<not> snd (fst (Read os (fst (binding (Tag field)))))"
  shows "ReadStruct_field lib os field old h
           = (Some (Errorf_field (Name field) (Errorf_required (fst (binding (Tag field))))),
              old :: ('w::len) word val, h)"
proof -
  obtain envName required where b: "binding (Tag field) = (envName, required)"
    by (cases "binding (Tag field)")
  obtain raw isSet where r: "fst (Read os envName) = (raw, isSet)"
    by (cases "fst (Read os envName)")
  have "decodeField lib os field = (None :: 'w word val option, Some (Errorf_required envName))"
    using assms b r by (simp add: decodeField_def)
  then show ?thesis
    using assms(1) b by (simp add: ReadStruct_field_def)
qed

lemma ReadStruct_field_unsupported:
  assumes "CanSet field" and "Tag field \<noteq> []"
    and "fst (Read os (fst (binding (Tag field)))) = (raw, True)"
    and "decoder_named lib (typeName_of (Type field)) = (None :: ('w::len) word DecoderFn option)"
  shows "ReadStruct_field lib os field old h
           = (Some (Errorf_field (Name field) (Errorf_unsupported (typeName_of (Type field)))),
              old :: 'w word val, h)"
proof -
  obtain envName required where b: "binding (Tag field) = (envName, required)"
    by (cases "binding (Tag field)")
  have "decodeField lib os field
          = (None :: 'w word val option, Some (Errorf_unsupported (typeName_of (Type field))))"
    using assms b by (simp add: decodeField_def)
  then show ?thesis
    using assms(1) by (simp add: ReadStruct_field_def)
qed

lemma ReadStruct_field_decoder_fails:
  assumes "CanSet field" and "Tag field \<noteq> []"
    and "fst (Read os (fst (binding (Tag field)))) = (raw, True)"
    and "decoder_named lib (typeName_of (Type field)) = Some dec"
    and "dec raw = (d :: ('w::len) word val, Some err)"
  shows "ReadStruct_field lib os field old h
           = (Some (Errorf_field (Name field) (Errorf_decode err)), old :: 'w word val, h)"
proof -
  have "decodeField lib os field = (None :: 'w word val option, Some (Errorf_decode err))"
    using decodeField_found [OF assms(2,3,4)] assms(5) by simp
  from ReadStruct_field_decode_error [OF assms(1) this] show ?thesis .
qed

lemma ReadStruct_halts_at:
  assumes "ReadStruct lib os (Pointer (StructV pre)) h = (None, vpre, h1)"
    and "ReadStruct_field lib os field old h1 = (Some e, old, h1)"
  shows "ReadStruct lib os (Pointer (StructV (pre @ (field, old) # post))) h
           = halted e vpre field old post h1"
  using assms(2) by (simp add: ReadStruct_reaches_field [OF assms(1)] halted_def)

subsection \<open>Unfolding the definitions on concrete inputs\<close>

lemmas ev_defs = ReadStruct_def ReadStruct_field_def CanSet_def exported_def unexported_def decodeField_def binding_def Read_def
  os_LookupEnv_def os_ReadFile_def os_of_def typeName_of_def decoder_named_def decoders_def IsValid_def rv_Kind_def
  Len_def elems_def MakeSlice_def Index_Set_def IsNil_def Elem_Set_def Zero_def fields_of_def field_named_def

section \<open>Properties\<close>

text \<open>
  C1. For every variable name K: when K is set, even to the empty string, \<open>Read\<close> returns
  its exact value with found = true after the single lookup of K, so the companion
  variable is never consulted; when K is unset and the companion \<open>K_FILE\<close> names a path
  that reads successfully, \<open>Read\<close> returns the file's contents unchanged with found = true;
  when K is unset and the companion is unset, or set to the empty string, or names a path
  whose read fails, \<open>Read\<close> returns the empty string with found = false. The result of
  \<open>Read\<close> has no error component: a failed read shows only as found = false.
\<close>

theorem Read_resolves:
  "(\<forall>v. os_LookupEnv os K = Some v \<longrightarrow> Read os K = ((v, True), [LookupEnv K]))
   \<and> (\<forall>path c. os_LookupEnv os K = None \<longrightarrow> os_LookupEnv os (K @ ''_FILE'') = Some path
        \<longrightarrow> os_ReadFile os path = Some c \<longrightarrow> fst (Read os K) = (c, True))
   \<and> (os_LookupEnv os K = None
        \<longrightarrow> (os_LookupEnv os (K @ ''_FILE'') = None
             \<or> os_LookupEnv os (K @ ''_FILE'') = Some []
             \<or> (\<exists>path. os_LookupEnv os (K @ ''_FILE'') = Some path
                    \<and> os_ReadFile os path = None))
        \<longrightarrow> fst (Read os K) = ([], False))"
  by (auto simp: Read_def os_ReadFile_def split: option.splits)

theorem Read_resolves_witness:
  "Read \<lparr>environ = [''K'' \<mapsto> [], ''K_FILE'' \<mapsto> ''/p''], files = [''/p'' \<mapsto> ''s'']\<rparr> ''K''
     = (([], True), [LookupEnv ''K''])
   \<and> fst (Read \<lparr>environ = [''K_FILE'' \<mapsto> ''/p''], files = [''/p'' \<mapsto> '' s3cret '']\<rparr> ''K'')
     = ('' s3cret '', True)
   \<and> fst (Read \<lparr>environ = [''K_FILE'' \<mapsto> []], files = [[] \<mapsto> ''x'']\<rparr> ''K'') = ([], False)
   \<and> fst (Read \<lparr>environ = [''K_FILE'' \<mapsto> ''/wrong/path''], files = Map.empty\<rparr> ''K'')
     = ([], False)
   \<and> fst (Read \<lparr>environ = Map.empty, files = [''/p'' \<mapsto> ''s'']\<rparr> ''K'') = ([], False)"
  using
    Read_resolves [of "\<lparr>environ = [''K'' \<mapsto> [], ''K_FILE'' \<mapsto> ''/p''], files = [''/p'' \<mapsto> ''s'']\<rparr>" "''K''"]
    Read_resolves [of "\<lparr>environ = [''K_FILE'' \<mapsto> ''/p''], files = [''/p'' \<mapsto> '' s3cret '']\<rparr>" "''K''"]
    Read_resolves [of "\<lparr>environ = [''K_FILE'' \<mapsto> []], files = [[] \<mapsto> ''x'']\<rparr>" "''K''"]
    Read_resolves [of "\<lparr>environ = [''K_FILE'' \<mapsto> ''/wrong/path''], files = Map.empty\<rparr>" "''K''"]
    Read_resolves [of "\<lparr>environ = Map.empty, files = [''/p'' \<mapsto> ''s'']\<rparr>" "''K''"]
  by (simp add: os_LookupEnv_def os_ReadFile_def)

text \<open>
  C2, as the code has it. A field that can be set and whose annotation is empty is
  skipped: the loop body leaves its value and the heap alone and returns no error, and
  populating a structure that contains the field gives what populating the structure
  without it gives, with the field put back unchanged. A field that cannot be set makes
  the loop body fail with the field-unexported error under the field's name, whatever its
  annotation: the check precedes the reading of the annotation.
\<close>

theorem untagged_settable_field_skipped:
  "(Tag field = [] \<and> CanSet field \<longrightarrow>
      ReadStruct_field lib os field v h = (None, v, h)
    \<and> ReadStruct lib os (Pointer (StructV (pre @ (field, v) # post))) h =
        (case ReadStruct lib os (Pointer (StructV (pre @ post))) h of
           (e, v', h') \<Rightarrow>
             (e, Pointer (StructV (take (length pre) (fields_of v') @ (field, v)
                                     # drop (length pre) (fields_of v'))), h')))
   \<and> (\<not> CanSet field \<longrightarrow>
        ReadStruct_field lib os field v h =
          (Some (Errorf_field (Name field) (Sentinel ErrFieldUnexported)), v, h))"
proof (intro conjI impI)
  assume a: "Tag field = [] \<and> CanSet field"
  then show "ReadStruct_field lib os field v h = (None, v, h)"
    by (simp add: ReadStruct_field_untagged)
  have "\<And>h1. ReadStruct_field lib os field v h1 = (None, v, h1)"
    using a by (simp add: ReadStruct_field_untagged)
  from ReadStruct_fields_skip [of lib os field v pre post h, OF this]
  show "ReadStruct lib os (Pointer (StructV (pre @ (field, v) # post))) h =
        (case ReadStruct lib os (Pointer (StructV (pre @ post))) h of
           (e, v', h') \<Rightarrow>
             (e, Pointer (StructV (take (length pre) (fields_of v') @ (field, v)
                                     # drop (length pre) (fields_of v'))), h'))"
    by (simp add: ReadStruct_struct fields_of_def split: prod.splits)
next
  assume "\<not> CanSet field"
  then show "ReadStruct_field lib os field v h =
          (Some (Errorf_field (Name field) (Sentinel ErrFieldUnexported)), v, h)"
    by (rule ReadStruct_field_unexported)
qed

theorem untagged_settable_field_skipped_witness:
  "ReadStruct plainlib (os_of [(''A'', ''x''), (''B'', ''y'')] [])
     (Pointer (StructV [(exported ''A'' T_string ''A'', VString []),
                        (exported ''U'' T_string [], VString ''keep''),
                        (exported ''B'' T_string ''B'', VString [])])) ([] :: 64 word heap)
   = (None,
      Pointer (StructV [(exported ''A'' T_string ''A'', VString ''x''),
                        (exported ''U'' T_string [], VString ''keep''),
                        (exported ''B'' T_string ''B'', VString ''y'')]), [])
   \<and> ReadStruct_field plainlib (os_of [] []) (unexported ''u'' T_string []) (VString ''keep'')
        ([] :: 64 word heap)
      = (Some (Errorf_field ''u'' (Sentinel ErrFieldUnexported)), VString ''keep'', [])"
proof -
  have tagged: "Tag (exported ''U'' T_string []) = [] \<and> CanSet (exported ''U'' T_string [])"
    by (simp add: exported_def CanSet_def)
  have hidden: "\<not> CanSet (unexported ''u'' T_string [])"
    by (simp add: unexported_def CanSet_def)
  have rest: "ReadStruct plainlib (os_of [(''A'', ''x''), (''B'', ''y'')] [])
     (Pointer (StructV ([(exported ''A'' T_string ''A'', VString [])]
                        @ [(exported ''B'' T_string ''B'', VString [])]))) ([] :: 64 word heap)
   = (None,
      Pointer (StructV [(exported ''A'' T_string ''A'', VString ''x''),
                        (exported ''B'' T_string ''B'', VString ''y'')]), [])"
    by (simp add: ev_defs)
  from untagged_settable_field_skipped
    [of "exported ''U'' T_string []" plainlib "os_of [(''A'', ''x''), (''B'', ''y'')] []"
        "VString ''keep''" "[] :: 64 word heap" "[(exported ''A'' T_string ''A'', VString [])]"
        "[(exported ''B'' T_string ''B'', VString [])]"]
    tagged rest
  have "ReadStruct plainlib (os_of [(''A'', ''x''), (''B'', ''y'')] [])
     (Pointer (StructV [(exported ''A'' T_string ''A'', VString []),
                        (exported ''U'' T_string [], VString ''keep''),
                        (exported ''B'' T_string ''B'', VString [])])) ([] :: 64 word heap)
   = (None,
      Pointer (StructV [(exported ''A'' T_string ''A'', VString ''x''),
                        (exported ''U'' T_string [], VString ''keep''),
                        (exported ''B'' T_string ''B'', VString ''y'')]), [])"
    by (simp add: fields_of_def)
  moreover from untagged_settable_field_skipped
    [of "unexported ''u'' T_string []" plainlib "os_of [] []" "VString ''keep''" "[] :: 64 word heap"] hidden
  have "ReadStruct_field plainlib (os_of [] []) (unexported ''u'' T_string []) (VString ''keep'')
        ([] :: 64 word heap)
      = (Some (Errorf_field ''u'' (Sentinel ErrFieldUnexported)), VString ''keep'', [])"
    by (simp add: unexported_def)
  ultimately show ?thesis by simp
qed

text \<open>
  Without the condition that the field can be set, C2 fails: on a structure whose only
  field is unexported and has no annotation, populate returns the field-unexported error
  instead of skipping the field.
\<close>

theorem untagged_unexported_field_counterexample:
  "ReadStruct plainlib (os_of [] [])
     (Pointer (StructV [(unexported ''u'' T_string [], VString ''keep'')])) ([] :: 64 word heap)
   = (Some (Errorf_field ''u'' (Sentinel ErrFieldUnexported)),
      Pointer (StructV [(unexported ''u'' T_string [], VString ''keep'')]), [])"
  by (simp add: ev_defs)

text \<open>
  C3. Populate halts on the first failing field and returns its failure. Forwards: when
  the fields before a field are processed without error and the loop body fails on that
  field, populate stops there and returns that failure, which carries the field's name;
  the fields before are as assigned, that field and the fields after it are as they
  were, and the heap is the one the fields before have left. This holds in particular of
  a field that cannot be set, of a required field whose variable does not resolve, of a
  field whose type has no decoder, and of a field whose decoder rejects the resolved
  value. Backwards: when populate returns an error on a pointer to a structure, there is
  a field, the first failing one, such that the error carries that field's name,
  populate on the structure cut before that field succeeds and yields exactly the values
  and the heap that the failed call leaves for the fields before it, the loop body fails
  on that field with this error and leaves its value and the heap alone, and that field
  and every field after it have their values from before the call.
\<close>

theorem ReadStruct_halts_at_first_failure:
  "(ReadStruct lib os (Pointer (StructV fs)) h = (Some e, v', h') \<longrightarrow>
      (\<exists>i < length fs.
           field_named e = Some (Name (fst (fs ! i)))
         \<and> ReadStruct lib os (Pointer (StructV (take i fs))) h
              = (None, Pointer (StructV (take i (fields_of v'))), h')
         \<and> ReadStruct_field lib os (fst (fs ! i)) (snd (fs ! i)) h' = (Some e, snd (fs ! i), h')
         \<and> drop i (fields_of v') = drop i fs))
   \<and> (ReadStruct lib os (Pointer (StructV pre)) h = (None, vpre, h1) \<longrightarrow>
        (fst (ReadStruct_field lib os field old h1) = Some e \<longrightarrow>
           field_named e = Some (Name field)
         \<and> ReadStruct lib os (Pointer (StructV (pre @ (field, old) # post))) h
             = halted e vpre field old post h1)
      \<and> (\<not> CanSet field \<longrightarrow>
           ReadStruct lib os (Pointer (StructV (pre @ (field, old) # post))) h
             = halted (Errorf_field (Name field) (Sentinel ErrFieldUnexported)) vpre field old post h1)
      \<and> (CanSet field \<and> Tag field \<noteq> [] \<and> snd (binding (Tag field))
           \<and> \<not> snd (fst (Read os (fst (binding (Tag field))))) \<longrightarrow>
           ReadStruct lib os (Pointer (StructV (pre @ (field, old) # post))) h
             = halted (Errorf_field (Name field) (Errorf_required (fst (binding (Tag field)))))
                 vpre field old post h1)
      \<and> (CanSet field \<and> Tag field \<noteq> []
           \<and> fst (Read os (fst (binding (Tag field)))) = (raw, True)
           \<and> decoder_named lib (typeName_of (Type field)) = (None :: ('w::len) word DecoderFn option) \<longrightarrow>
           ReadStruct lib os (Pointer (StructV (pre @ (field, old) # post))) h
             = halted (Errorf_field (Name field) (Errorf_unsupported (typeName_of (Type field))))
                 vpre field (old :: 'w word val) post h1)
      \<and> (CanSet field \<and> Tag field \<noteq> []
           \<and> fst (Read os (fst (binding (Tag field)))) = (raw, True)
           \<and> decoder_named lib (typeName_of (Type field)) = Some dec
           \<and> dec raw = (d :: 'w word val, Some err) \<longrightarrow>
           ReadStruct lib os (Pointer (StructV (pre @ (field, old) # post))) h
             = halted (Errorf_field (Name field) (Errorf_decode err)) vpre field old post h1))"
proof (intro conjI impI)
  assume run: "ReadStruct lib os (Pointer (StructV fs)) h = (Some e, v', h')"
  obtain fs' where fs': "ReadStruct_fields lib os fs h = (Some e, fs', h')" "v' = Pointer (StructV fs')"
    using run by (auto simp: ReadStruct_struct split: prod.splits)
  from ReadStruct_fields_first_failure [OF fs'(1)]
  show "\<exists>i < length fs.
           field_named e = Some (Name (fst (fs ! i)))
         \<and> ReadStruct lib os (Pointer (StructV (take i fs))) h
              = (None, Pointer (StructV (take i (fields_of v'))), h')
         \<and> ReadStruct_field lib os (fst (fs ! i)) (snd (fs ! i)) h' = (Some e, snd (fs ! i), h')
         \<and> drop i (fields_of v') = drop i fs"
    using fs'(2) by (auto simp: ReadStruct_struct fields_of_def)
next
  assume pre: "ReadStruct lib os (Pointer (StructV pre)) h = (None, vpre, h1)"
    and fails: "fst (ReadStruct_field lib os field old h1) = Some e"
  obtain v2 h2 where step: "ReadStruct_field lib os field old h1 = (Some e, v2, h2)"
    using fails by (cases "ReadStruct_field lib os field old h1") auto
  from ReadStruct_field_error_frame [OF step] step
  have step': "ReadStruct_field lib os field old h1 = (Some e, old, h1)"
    by simp
  show "field_named e = Some (Name field)"
    using ReadStruct_field_error_named [OF step] .
  show "ReadStruct lib os (Pointer (StructV (pre @ (field, old) # post))) h
          = halted e vpre field old post h1"
    using ReadStruct_halts_at [OF pre step'] .
next
  assume pre: "ReadStruct lib os (Pointer (StructV pre)) h = (None, vpre, h1)"
    and "\<not> CanSet field"
  then show "ReadStruct lib os (Pointer (StructV (pre @ (field, old) # post))) h
             = halted (Errorf_field (Name field) (Sentinel ErrFieldUnexported)) vpre field old post h1"
    by (simp add: ReadStruct_halts_at ReadStruct_field_unexported)
next
  assume pre: "ReadStruct lib os (Pointer (StructV pre)) h = (None, vpre, h1)"
    and "CanSet field \<and> Tag field \<noteq> [] \<and> snd (binding (Tag field))
           \<and> \<not> snd (fst (Read os (fst (binding (Tag field)))))"
  then show "ReadStruct lib os (Pointer (StructV (pre @ (field, old) # post))) h
             = halted (Errorf_field (Name field) (Errorf_required (fst (binding (Tag field)))))
                 vpre field old post h1"
    by (simp add: ReadStruct_halts_at ReadStruct_field_required)
next
  assume pre: "ReadStruct lib os (Pointer (StructV pre)) h = (None, vpre, h1)"
    and a: "CanSet field \<and> Tag field \<noteq> []
           \<and> fst (Read os (fst (binding (Tag field)))) = (raw, True)
           \<and> decoder_named lib (typeName_of (Type field)) = (None :: 'w word DecoderFn option)"
  have "ReadStruct_field lib os field old h1
           = (Some (Errorf_field (Name field) (Errorf_unsupported (typeName_of (Type field)))), old, h1)"
    using a ReadStruct_field_unsupported [of field os raw lib old h1] by simp
  from ReadStruct_halts_at [OF pre this]
  show "ReadStruct lib os (Pointer (StructV (pre @ (field, old) # post))) h
             = halted (Errorf_field (Name field) (Errorf_unsupported (typeName_of (Type field))))
                 vpre field old post h1" .
next
  assume pre: "ReadStruct lib os (Pointer (StructV pre)) h = (None, vpre, h1)"
    and a: "CanSet field \<and> Tag field \<noteq> []
           \<and> fst (Read os (fst (binding (Tag field)))) = (raw, True)
           \<and> decoder_named lib (typeName_of (Type field)) = Some dec
           \<and> dec raw = (d, Some err)"
  have "ReadStruct_field lib os field old h1
           = (Some (Errorf_field (Name field) (Errorf_decode err)), old, h1)"
    using a ReadStruct_field_decoder_fails [of field os raw lib dec d err old h1] by simp
  from ReadStruct_halts_at [OF pre this]
  show "ReadStruct lib os (Pointer (StructV (pre @ (field, old) # post))) h
             = halted (Errorf_field (Name field) (Errorf_decode err)) vpre field old post h1" .
qed

theorem ReadStruct_halts_at_first_failure_witness:
  "ReadStruct plainlib (os_of [(''A'', ''x''), (''N'', ''abc''), (''C'', ''z'')] [])
     (Pointer (StructV ([(exported ''A'' T_string ''A'', VString [])]
                        @ (exported ''N'' (Basic ''int16'' Int16) ''N'', VInt16 7)
                        # [(exported ''C'' T_string ''C'', VString [])]))) ([] :: 64 word heap)
   = (Some (Errorf_field ''N'' (Errorf_decode (NumError ''ParseInt'' ''abc'' ErrSyntax))),
      Pointer (StructV [(exported ''A'' T_string ''A'', VString ''x''),
                        (exported ''N'' (Basic ''int16'' Int16) ''N'', VInt16 7),
                        (exported ''C'' T_string ''C'', VString [])]), [])
   \<and> (\<exists>i < 3.
          field_named (Errorf_field ''N'' (Errorf_decode (NumError ''ParseInt'' ''abc'' ErrSyntax)))
            = Some (Name (fst ([(exported ''A'' T_string ''A'', VString [] :: 64 word val),
                        (exported ''N'' (Basic ''int16'' Int16) ''N'', VInt16 7),
                        (exported ''C'' T_string ''C'', VString [])] ! i)))
        \<and> drop i [(exported ''A'' T_string ''A'', VString ''x'' :: 64 word val),
                        (exported ''N'' (Basic ''int16'' Int16) ''N'', VInt16 7),
                        (exported ''C'' T_string ''C'', VString [])]
           = drop i [(exported ''A'' T_string ''A'', VString []),
                        (exported ''N'' (Basic ''int16'' Int16) ''N'', VInt16 7),
                        (exported ''C'' T_string ''C'', VString [])])"
proof -
  let ?os = "os_of [(''A'', ''x''), (''N'', ''abc''), (''C'', ''z'')] []"
  let ?A = "exported ''A'' T_string ''A''"
  let ?N = "exported ''N'' (Basic ''int16'' Int16) ''N''"
  let ?C = "exported ''C'' T_string ''C''"
  let ?dec = "\<lambda>raw. case ParseInt raw 16 of (v, err) \<Rightarrow> (VInt16 (scast v) :: 64 word val, err)"
  let ?e = "Errorf_field ''N'' (Errorf_decode (NumError ''ParseInt'' ''abc'' ErrSyntax))"
  have pre: "ReadStruct plainlib ?os (Pointer (StructV [(?A, VString [])])) ([] :: 64 word heap)
               = (None, Pointer (StructV [(?A, VString ''x'')]), [])"
    by (simp add: ev_defs)
  have dec: "decoder_named plainlib ''int16'' = Some ?dec"
    by (simp add: decoder_named_def decoders_def)
  have bad: "?dec ''abc'' = (VInt16 0, Some (NumError ''ParseInt'' ''abc'' ErrSyntax))"
    by code_simp
  have fld: "CanSet ?N \<and> Tag ?N \<noteq> [] \<and> fst (Read ?os (fst (binding (Tag ?N)))) = (''abc'', True)
      \<and> typeName_of (Type ?N) = ''int16'' \<and> Name ?N = ''N''"
    by (simp add: ev_defs)
  from ReadStruct_halts_at_first_failure
    [where ?'w = 64 and lib = plainlib and os = ?os and pre = "[(?A, VString [])]" and h = "[]"
       and vpre = "Pointer (StructV [(?A, VString ''x'')])" and ?h1.0 = "[]" and field = ?N
       and old = "VInt16 7" and post = "[(?C, VString [])]" and raw = "''abc''" and dec = ?dec
       and d = "VInt16 0" and err = "NumError ''ParseInt'' ''abc'' ErrSyntax",
     THEN conjunct2, rule_format, OF pre, THEN conjunct2, THEN conjunct2, THEN conjunct2,
     THEN conjunct2, rule_format]
    fld dec bad
  have run: "ReadStruct plainlib ?os
     (Pointer (StructV ([(?A, VString [])] @ (?N, VInt16 7) # [(?C, VString [])]))) ([] :: 64 word heap)
   = (Some ?e, Pointer (StructV [(?A, VString ''x''), (?N, VInt16 7), (?C, VString [])]), [])"
    by (simp add: halted_def fields_of_def)
  from ReadStruct_halts_at_first_failure
    [where ?'w = 64 and lib = plainlib and os = ?os
       and fs = "[(?A, VString []), (?N, VInt16 7), (?C, VString [])]" and h = "[]" and e = ?e
       and v' = "Pointer (StructV [(?A, VString ''x''), (?N, VInt16 7), (?C, VString [])])"
       and h' = "[]", THEN conjunct1, rule_format] run
  obtain i where
    i: "i < length [(?A, VString [] :: 64 word val), (?N, VInt16 7), (?C, VString [])]"
    and named: "field_named ?e
            = Some (Name (fst ([(?A, VString [] :: 64 word val), (?N, VInt16 7), (?C, VString [])] ! i)))"
    and rest: "drop i (fields_of (Pointer (StructV
                       [(?A, VString ''x'' :: 64 word val), (?N, VInt16 7), (?C, VString [])])))
           = drop i [(?A, VString []), (?N, VInt16 7), (?C, VString [])]"
    by auto
  from i have "i < 3" by simp
  with named rest run show ?thesis
    unfolding fields_of_def by (intro conjI exI [of _ i]) simp_all
qed



text \<open>
  C5. For a field with a binding that is not marked required and whose variable does not
  resolve, the loop body leaves the field's value and the heap exactly as they were (no
  zeroing, no cell allocated), returns no error when the field can be set, and the field
  has its value from before the call after populate on any structure containing it. For
  a settable pointer field whose variable resolves and decodes to \<open>d\<close>: a nil pointer is
  made to point to one new cell, which holds \<open>d\<close>; a pointer to an existing cell is kept
  and \<open>d\<close> is written into that cell, with no cell allocated.
\<close>

theorem unresolved_optional_field_untouched:
  "(Tag field \<noteq> [] \<and> \<not> snd (binding (Tag field))
      \<and> \<not> snd (fst (Read os (fst (binding (Tag field))))) \<longrightarrow>
        snd (ReadStruct_field lib os field v h) = (v :: ('w::len) word val, h)
      \<and> (CanSet field \<longrightarrow> ReadStruct_field lib os field v h = (None, v, h))
      \<and> fields_of (fst (snd (ReadStruct lib os (Pointer (StructV (pre @ (field, v) # post))) h0)))
           ! length pre = (field, v))
   \<and> (Kind_of (Type field) = Ptr \<and> CanSet field \<and> decodeField lib os field = (Some d, None) \<longrightarrow>
        ReadStruct_field lib os field (VPtr None) h = (None, VPtr (Some (length h)), h @ [d])
      \<and> (a < length h \<longrightarrow>
           ReadStruct_field lib os field (VPtr (Some a)) h = (None, VPtr (Some a), h[a := d])))"
proof (intro conjI impI)
  assume a: "Tag field \<noteq> [] \<and> \<not> snd (binding (Tag field))
      \<and> \<not> snd (fst (Read os (fst (binding (Tag field)))))"
  then have dec: "decodeField lib os field = (None :: 'w word val option, None)"
    by (simp add: decodeField_unresolved)
  then show "snd (ReadStruct_field lib os field v h) = (v, h)"
    by (rule ReadStruct_field_frame_undecoded)
  show "ReadStruct_field lib os field v h = (None, v, h)" if "CanSet field"
    using that dec by (simp add: ReadStruct_field_def)
  have "\<And>h1. fst (snd (ReadStruct_field lib os field v h1)) = v"
    using ReadStruct_field_frame_undecoded [OF dec] by simp
  from ReadStruct_field_kept [OF this]
  show "fields_of (fst (snd (ReadStruct lib os (Pointer (StructV (pre @ (field, v) # post))) h0)))
           ! length pre = (field, v)" .
next
  assume "Kind_of (Type field) = Ptr \<and> CanSet field \<and> decodeField lib os field = (Some d, None)"
  then show "ReadStruct_field lib os field (VPtr None) h = (None, VPtr (Some (length h)), h @ [d])"
    by (simp add: ReadStruct_field_ptr(1))
next
  assume "Kind_of (Type field) = Ptr \<and> CanSet field \<and> decodeField lib os field = (Some d, None)"
    and "a < length h"
  then show "ReadStruct_field lib os field (VPtr (Some a)) h = (None, VPtr (Some a), h[a := d])"
    by (simp add: ReadStruct_field_ptr(2))
qed

theorem unresolved_optional_field_untouched_witness:
  "ReadStruct plainlib (os_of [(''REQUIRED_PTR'', ''required_value'')] [])
     (Pointer (StructV ([] @ (exported ''OptionalPtr'' (PtrT None T_string) ''OPTIONAL_PTR'', VPtr None)
         # [(exported ''RequiredPtr'' (PtrT None T_string) ''REQUIRED_PTR,required'', VPtr None)])))
     ([] :: 64 word heap)
    = (None,
       Pointer (StructV [(exported ''OptionalPtr'' (PtrT None T_string) ''OPTIONAL_PTR'', VPtr None),
          (exported ''RequiredPtr'' (PtrT None T_string) ''REQUIRED_PTR,required'', VPtr (Some 0))]),
       [VString ''required_value''])
   \<and> ReadStruct_field plainlib (os_of [(''REQUIRED_PTR'', ''required_value'')] [])
       (exported ''OptionalPtr'' (PtrT None T_string) ''OPTIONAL_PTR'') (VPtr None) ([] :: 64 word heap)
     = (None, VPtr None, [])
   \<and> ReadStruct_field plainlib (os_of [(''REQUIRED_PTR'', ''required_value'')] [])
       (exported ''RequiredPtr'' (PtrT None T_string) ''REQUIRED_PTR,required'') (VPtr (Some 0))
       ([VString ''old''] :: 64 word heap)
     = (None, VPtr (Some 0), [VString ''required_value''])"
proof -
  let ?os = "os_of [(''REQUIRED_PTR'', ''required_value'')] []"
  let ?opt = "exported ''OptionalPtr'' (PtrT None T_string) ''OPTIONAL_PTR''"
  let ?req = "exported ''RequiredPtr'' (PtrT None T_string) ''REQUIRED_PTR,required''"
  have unresolved: "Tag ?opt \<noteq> [] \<and> \<not> snd (binding (Tag ?opt))
      \<and> \<not> snd (fst (Read ?os (fst (binding (Tag ?opt)))))"
    by (simp add: ev_defs)
  have resolved: "Kind_of (Type ?req) = Ptr \<and> CanSet ?req
      \<and> decodeField plainlib ?os ?req = (Some (VString ''required_value'' :: 64 word val), None)"
    by (simp add: ev_defs)
  have canset: "CanSet ?opt"
    by (simp add: exported_def CanSet_def)
  have run: "ReadStruct plainlib ?os
     (Pointer (StructV ([] @ (?opt, VPtr None) # [(?req, VPtr None)]))) ([] :: 64 word heap)
    = (None, Pointer (StructV [(?opt, VPtr None), (?req, VPtr (Some 0))]),
       [VString ''required_value''])"
    by (simp add: ev_defs)
  from unresolved_optional_field_untouched
         [of ?opt ?os plainlib "VPtr None" "[] :: 64 word heap" "[]" "[(?req, VPtr None)]" "[]"]
       unresolved canset
  have "ReadStruct_field plainlib ?os ?opt (VPtr None) ([] :: 64 word heap) = (None, VPtr None, [])"
    by blast
  moreover from unresolved_optional_field_untouched
         [of ?req ?os plainlib "VPtr None" "[VString ''old''] :: 64 word heap" "[]" "[]" "[]"
             "VString ''required_value''" 0]
       resolved
  have "ReadStruct_field plainlib ?os ?req (VPtr (Some 0)) ([VString ''old''] :: 64 word heap)
     = (None, VPtr (Some 0), [VString ''required_value''])"
    by simp
  ultimately show ?thesis
    using run by simp
qed

text \<open>
  C6. The table has a decoder for \<open>slog.Level\<close>. On every input it returns the debug,
  info, warn or error level, without error, when the input lowered by \<open>strings.ToLower\<close>
  and then trimmed by \<open>strings.TrimSpace\<close> is that word, and on every other input the info
  level together with the error that carries the raw input unchanged. On an input of
  ASCII bytes the lowered and trimmed input is one of the words exactly when the input is
  that word up to letter case between ASCII spaces; beyond ASCII, letter case and white
  space are those of the library's Unicode tables (so U+0130 followed by NFO is accepted
  as info by a library that lowers U+0130 to i). When a settable field of this type
  resolves to an input the decoder rejects, the loop body returns the decode error
  wrapping that error under the field's name and leaves the field's value and the heap
  as they were; populate, once the fields before are processed without error, stops at
  that field and returns this error, so the info level is not assigned.
\<close>

theorem slog_Level_decoder_matches:
  "\<exists>dec. decoder_named lib ''slog.Level'' = Some dec
     \<and> (TrimSpace lib (ToLower lib raw) = ''debug'' \<longrightarrow> dec raw = (LevelDebug :: ('w::len) word val, None))
     \<and> (TrimSpace lib (ToLower lib raw) = ''info'' \<longrightarrow> dec raw = (LevelInfo, None))
     \<and> (TrimSpace lib (ToLower lib raw) = ''warn'' \<longrightarrow> dec raw = (LevelWarn, None))
     \<and> (TrimSpace lib (ToLower lib raw) = ''error'' \<longrightarrow> dec raw = (LevelError, None))
     \<and> (TrimSpace lib (ToLower lib raw) \<notin> {''debug'', ''info'', ''warn'', ''error''} \<longrightarrow>
          dec raw = (LevelInfo, Some (InvalidLevel raw)))
     \<and> (isASCII raw \<longrightarrow>
          (TrimSpace lib (ToLower lib raw) = ''debug'' \<longleftrightarrow> folds_to raw ''debug'')
        \<and> (TrimSpace lib (ToLower lib raw) = ''info'' \<longleftrightarrow> folds_to raw ''info'')
        \<and> (TrimSpace lib (ToLower lib raw) = ''warn'' \<longleftrightarrow> folds_to raw ''warn'')
        \<and> (TrimSpace lib (ToLower lib raw) = ''error'' \<longleftrightarrow> folds_to raw ''error''))
     \<and> (isASCII raw \<longrightarrow>
          (folds_to raw ''debug'' \<longrightarrow> dec raw = (LevelDebug, None))
        \<and> (folds_to raw ''info'' \<longrightarrow> dec raw = (LevelInfo, None))
        \<and> (folds_to raw ''warn'' \<longrightarrow> dec raw = (LevelWarn, None))
        \<and> (folds_to raw ''error'' \<longrightarrow> dec raw = (LevelError, None))
        \<and> (\<not> folds_to raw ''debug'' \<and> \<not> folds_to raw ''info'' \<and> \<not> folds_to raw ''warn''
             \<and> \<not> folds_to raw ''error'' \<longrightarrow> dec raw = (LevelInfo, Some (InvalidLevel raw))))
     \<and> (snd (dec raw) \<noteq> None \<longrightarrow> dec raw = (LevelInfo, Some (InvalidLevel raw)))
     \<and> (typeName_of (Type field) = ''slog.Level'' \<and> CanSet field \<and> Tag field \<noteq> []
          \<and> fst (Read os (fst (binding (Tag field)))) = (raw, True) \<and> snd (dec raw) \<noteq> None \<longrightarrow>
            ReadStruct_field lib os field old h
              = (Some (Errorf_field (Name field) (Errorf_decode (InvalidLevel raw))),
                 old :: 'w word val, h)
          \<and> errors_Is (Errorf_field (Name field) (Errorf_decode (InvalidLevel raw))) ErrFieldDecode
          \<and> (ReadStruct lib os (Pointer (StructV pre)) h0 = (None, vpre, h1) \<longrightarrow>
                ReadStruct lib os (Pointer (StructV (pre @ (field, old) # post))) h0
                  = halted (Errorf_field (Name field) (Errorf_decode (InvalidLevel raw)))
                      vpre field old post h1)
          \<and> fields_of (fst (snd (ReadStruct lib os (Pointer (StructV (pre @ (field, old) # post))) h0)))
               ! length pre = (field, old))"
proof -
  let ?s = "TrimSpace lib (ToLower lib raw)"
  let ?dec = "\<lambda>raw.
        (let s = TrimSpace lib (ToLower lib raw)
         in if s = ''debug'' then (LevelDebug :: 'w word val, None)
            else if s = ''warn'' then (LevelWarn, None)
            else if s = ''error'' then (LevelError, None)
            else if s = ''info'' then (LevelInfo, None)
            else (LevelInfo, Some (InvalidLevel raw)))"
  have named: "decoder_named lib ''slog.Level'' = Some ?dec"
    by (rule decoder_named_level)
  have all: "(?s = ''debug'' \<longrightarrow> ?dec raw = (LevelDebug, None))
     \<and> (?s = ''info'' \<longrightarrow> ?dec raw = (LevelInfo, None))
     \<and> (?s = ''warn'' \<longrightarrow> ?dec raw = (LevelWarn, None))
     \<and> (?s = ''error'' \<longrightarrow> ?dec raw = (LevelError, None))
     \<and> (?s \<notin> {''debug'', ''info'', ''warn'', ''error''} \<longrightarrow>
          ?dec raw = (LevelInfo, Some (InvalidLevel raw)))"
    by (simp add: Let_def)
  have iff: "folds_to raw ''debug'' \<longleftrightarrow> map lower_byte (trimmed raw) = ''debug''"
    "folds_to raw ''info'' \<longleftrightarrow> map lower_byte (trimmed raw) = ''info''"
    "folds_to raw ''warn'' \<longleftrightarrow> map lower_byte (trimmed raw) = ''warn''"
    "folds_to raw ''error'' \<longleftrightarrow> map lower_byte (trimmed raw) = ''error''"
    by (rule folds_to_iff; simp add: asciiSpace_def)+
  have ascii: "isASCII raw \<longrightarrow>
          (?s = ''debug'' \<longleftrightarrow> folds_to raw ''debug'')
        \<and> (?s = ''info'' \<longleftrightarrow> folds_to raw ''info'')
        \<and> (?s = ''warn'' \<longleftrightarrow> folds_to raw ''warn'')
        \<and> (?s = ''error'' \<longleftrightarrow> folds_to raw ''error'')"
    unfolding iff by (simp add: TrimSpace_ToLower_ascii)
  have part1: "isASCII raw \<longrightarrow>
          (folds_to raw ''debug'' \<longrightarrow> ?dec raw = (LevelDebug, None))
        \<and> (folds_to raw ''info'' \<longrightarrow> ?dec raw = (LevelInfo, None))
        \<and> (folds_to raw ''warn'' \<longrightarrow> ?dec raw = (LevelWarn, None))
        \<and> (folds_to raw ''error'' \<longrightarrow> ?dec raw = (LevelError, None))
        \<and> (\<not> folds_to raw ''debug'' \<and> \<not> folds_to raw ''info'' \<and> \<not> folds_to raw ''warn''
             \<and> \<not> folds_to raw ''error'' \<longrightarrow> ?dec raw = (LevelInfo, Some (InvalidLevel raw)))"
    using ascii all by auto
  have part2: "snd (?dec raw) \<noteq> None \<longrightarrow> ?dec raw = (LevelInfo, Some (InvalidLevel raw))"
    by (simp add: Let_def)
  have part3: "ReadStruct_field lib os field old h
              = (Some (Errorf_field (Name field) (Errorf_decode (InvalidLevel raw))), old, h)
          \<and> errors_Is (Errorf_field (Name field) (Errorf_decode (InvalidLevel raw))) ErrFieldDecode
          \<and> (ReadStruct lib os (Pointer (StructV pre)) h0 = (None, vpre, h1) \<longrightarrow>
                ReadStruct lib os (Pointer (StructV (pre @ (field, old) # post))) h0
                  = halted (Errorf_field (Name field) (Errorf_decode (InvalidLevel raw)))
                      vpre field old post h1)
          \<and> fields_of (fst (snd (ReadStruct lib os (Pointer (StructV (pre @ (field, old) # post))) h0)))
               ! length pre = (field, old)"
    if a: "typeName_of (Type field) = ''slog.Level'' \<and> CanSet field \<and> Tag field \<noteq> []
          \<and> fst (Read os (fst (binding (Tag field)))) = (raw, True) \<and> snd (?dec raw) \<noteq> None"
  proof -
    from a part2 have r: "?dec raw = (LevelInfo, Some (InvalidLevel raw))"
      by blast
    have "decoder_named lib (typeName_of (Type field)) = Some ?dec"
      using a named by simp
    from decodeField_found [OF _ _ this, of os raw] a r
    have d: "decodeField lib os field = (None :: 'w word val option, Some (Errorf_decode (InvalidLevel raw)))"
      by simp
    from a have c: "CanSet field" by simp
    have step: "ReadStruct_field lib os field old h2
           = (Some (Errorf_field (Name field) (Errorf_decode (InvalidLevel raw))), old, h2)" for h2
      using ReadStruct_field_decode_error [OF c d] .
    then have "\<And>h2. fst (snd (ReadStruct_field lib os field old h2)) = old"
      by simp
    from ReadStruct_field_kept [OF this] step ReadStruct_halts_at [OF _ step] show ?thesis
      by simp
  qed
  show ?thesis
    by (intro exI [of _ ?dec]) (use named all ascii part1 part2 part3 in blast)
qed

theorem slog_Level_decoder_matches_witness:
  "(\<exists>dec. decoder_named plainlib ''slog.Level'' = Some dec
      \<and> dec '' WaRn  '' = (LevelWarn :: 64 word val, None))
   \<and> (\<exists>dec. decoder_named plainlib ''slog.Level'' = Some dec
      \<and> dec ''verbose'' = (LevelInfo :: 64 word val, Some (InvalidLevel ''verbose'')))
   \<and> (\<exists>dec. decoder_named dottedlib ''slog.Level'' = Some dec
      \<and> dec [CHR 0xC4, CHR 0xB0, CHR ''N'', CHR ''F'', CHR ''O''] = (LevelInfo :: 64 word val, None))
   \<and> ReadStruct plainlib (os_of [(''A'', ''x''), (''LOG'', ''verbose''), (''C'', ''z'')] [])
        (Pointer (StructV ([(exported ''A'' T_string ''A'', VString [])]
            @ (exported ''Level'' (Basic ''slog.Level'' Int_kind) ''LOG'', VInt 4)
            # [(exported ''C'' T_string ''C'', VString [])]))) ([] :: 64 word heap)
      = (Some (Errorf_field ''Level'' (Errorf_decode (InvalidLevel ''verbose''))),
         Pointer (StructV [(exported ''A'' T_string ''A'', VString ''x''),
            (exported ''Level'' (Basic ''slog.Level'' Int_kind) ''LOG'', VInt 4),
            (exported ''C'' T_string ''C'', VString [])]), [])"
proof -
  let ?os = "os_of [(''A'', ''x''), (''LOG'', ''verbose''), (''C'', ''z'')] []"
  let ?A = "exported ''A'' T_string ''A''"
  let ?C = "exported ''C'' T_string ''C''"
  let ?f = "exported ''Level'' (Basic ''slog.Level'' Int_kind) ''LOG''"
  let ?dotted = "[CHR 0xC4, CHR 0xB0, CHR ''N'', CHR ''F'', CHR ''O'']"
  have a1: "isASCII '' WaRn  ''"
    by (simp add: isASCII_def)
  have lw: "lower_byte CHR ''W'' = CHR ''w''" "lower_byte CHR ''a'' = CHR ''a''"
    "lower_byte CHR ''R'' = CHR ''r''" "lower_byte CHR ''n'' = CHR ''n''"
    by code_simp+
  have w: "folds_to '' WaRn  '' ''warn''"
    unfolding folds_to_def
    by (rule exI [of _ "'' ''"], rule exI [of _ "''WaRn''"], rule exI [of _ "''  ''"])
       (simp add: asciiSpace_def lw)
  have v: "TrimSpace plainlib (ToLower plainlib ''verbose'')
             \<notin> {''debug'', ''info'', ''warn'', ''error''}"
    by code_simp
  have d: "TrimSpace dottedlib (ToLower dottedlib ?dotted) = ''info''"
    by code_simp
  have f: "typeName_of (Type ?f) = ''slog.Level'' \<and> CanSet ?f \<and> Tag ?f \<noteq> []
          \<and> fst (Read ?os (fst (binding (Tag ?f)))) = (''verbose'', True) \<and> Name ?f = ''Level''"
    by (simp add: ev_defs)
  have pre: "ReadStruct plainlib ?os (Pointer (StructV [(?A, VString [])])) ([] :: 64 word heap)
               = (None, Pointer (StructV [(?A, VString ''x'')]), [])"
    by (simp add: ev_defs)
  from slog_Level_decoder_matches [where ?'w = 64 and lib = plainlib and raw = "'' WaRn  ''"
     and field = ?f and os = ?os and old = "VInt 4" and pre = "[(?A, VString [])]" and ?h0.0 = "[]"
       and vpre = "Pointer (StructV [(?A, VString ''x'')])" and ?h1.0 = "[]" and h = "[]"
       and post = "[(?C, VString [])]"]
  obtain dec1 :: "64 word DecoderFn" where
    dec1: "decoder_named plainlib ''slog.Level'' = Some dec1"
    and m: "isASCII '' WaRn  '' \<longrightarrow>
          (folds_to '' WaRn  '' ''debug'' \<longrightarrow> dec1 '' WaRn  '' = (LevelDebug, None))
        \<and> (folds_to '' WaRn  '' ''info'' \<longrightarrow> dec1 '' WaRn  '' = (LevelInfo, None))
        \<and> (folds_to '' WaRn  '' ''warn'' \<longrightarrow> dec1 '' WaRn  '' = (LevelWarn, None))
        \<and> (folds_to '' WaRn  '' ''error'' \<longrightarrow> dec1 '' WaRn  '' = (LevelError, None))
        \<and> (\<not> folds_to '' WaRn  '' ''debug'' \<and> \<not> folds_to '' WaRn  '' ''info''
             \<and> \<not> folds_to '' WaRn  '' ''warn'' \<and> \<not> folds_to '' WaRn  '' ''error''
             \<longrightarrow> dec1 '' WaRn  '' = (LevelInfo, Some (InvalidLevel '' WaRn  '')))"
    by (elim exE conjE)
  from m a1 w have "dec1 '' WaRn  '' = (LevelWarn, None)" by simp
  with dec1 have 1: "\<exists>dec. decoder_named plainlib ''slog.Level'' = Some dec
      \<and> dec '' WaRn  '' = (LevelWarn :: 64 word val, None)"
    by (intro exI [of _ dec1]) simp
  from slog_Level_decoder_matches [where ?'w = 64 and lib = dottedlib and raw = ?dotted
     and field = ?f and os = ?os and old = "VInt 4" and pre = "[(?A, VString [])]" and ?h0.0 = "[]"
       and vpre = "Pointer (StructV [(?A, VString ''x'')])" and ?h1.0 = "[]" and h = "[]"
       and post = "[(?C, VString [])]"]
  obtain dec3 :: "64 word DecoderFn" where
    dec3: "decoder_named dottedlib ''slog.Level'' = Some dec3"
    and i: "TrimSpace dottedlib (ToLower dottedlib ?dotted) = ''info'' \<longrightarrow>
             dec3 ?dotted = (LevelInfo, None)"
    by (elim exE conjE)
  from i d have "dec3 ?dotted = (LevelInfo, None)" by simp
  with dec3 have 3: "\<exists>dec. decoder_named dottedlib ''slog.Level'' = Some dec
      \<and> dec ?dotted = (LevelInfo :: 64 word val, None)"
    by (intro exI [of _ dec3]) simp
  from slog_Level_decoder_matches
    [where ?'w = 64 and lib = plainlib and raw = "''verbose''" and field = ?f and os = ?os
       and old = "VInt 4" and pre = "[(?A, VString [])]" and ?h0.0 = "[]"
       and vpre = "Pointer (StructV [(?A, VString ''x'')])" and ?h1.0 = "[]" and h = "[]"
       and post = "[(?C, VString [])]"]
  obtain dec :: "64 word DecoderFn" where
    dec: "decoder_named plainlib ''slog.Level'' = Some dec"
    and rej: "TrimSpace plainlib (ToLower plainlib ''verbose'')
                \<notin> {''debug'', ''info'', ''warn'', ''error''} \<longrightarrow>
              dec ''verbose'' = (LevelInfo, Some (InvalidLevel ''verbose''))"
    and pop: "typeName_of (Type ?f) = ''slog.Level'' \<and> CanSet ?f \<and> Tag ?f \<noteq> []
          \<and> fst (Read ?os (fst (binding (Tag ?f)))) = (''verbose'', True)
          \<and> snd (dec ''verbose'') \<noteq> None \<longrightarrow>
            ReadStruct_field plainlib ?os ?f (VInt 4) ([] :: 64 word heap)
              = (Some (Errorf_field (Name ?f) (Errorf_decode (InvalidLevel ''verbose''))), VInt 4, [])
          \<and> errors_Is (Errorf_field (Name ?f) (Errorf_decode (InvalidLevel ''verbose''))) ErrFieldDecode
          \<and> (ReadStruct plainlib ?os (Pointer (StructV [(?A, VString [])])) ([] :: 64 word heap)
               = (None, Pointer (StructV [(?A, VString ''x'')]), []) \<longrightarrow>
             ReadStruct plainlib ?os
               (Pointer (StructV ([(?A, VString [])] @ (?f, VInt 4) # [(?C, VString [])])))
               ([] :: 64 word heap)
               = halted (Errorf_field (Name ?f) (Errorf_decode (InvalidLevel ''verbose'')))
                   (Pointer (StructV [(?A, VString ''x'')])) ?f (VInt 4) [(?C, VString [])] [])
          \<and> fields_of (fst (snd (ReadStruct plainlib ?os
                 (Pointer (StructV ([(?A, VString [])] @ (?f, VInt 4) # [(?C, VString [])])))
                 ([] :: 64 word heap))))
               ! length [(?A, VString [] :: 64 word val)] = (?f, VInt 4)"
    by (elim exE conjE)
  from rej v have 2: "dec ''verbose'' = (LevelInfo, Some (InvalidLevel ''verbose''))"
    by simp
  with pop f pre have "ReadStruct plainlib ?os
               (Pointer (StructV ([(?A, VString [])] @ (?f, VInt 4) # [(?C, VString [])])))
               ([] :: 64 word heap)
               = halted (Errorf_field (Name ?f) (Errorf_decode (InvalidLevel ''verbose'')))
                   (Pointer (StructV [(?A, VString ''x'')])) ?f (VInt 4) [(?C, VString [])] []"
    by simp
  then have 4: "ReadStruct plainlib ?os
               (Pointer (StructV ([(?A, VString [])] @ (?f, VInt 4) # [(?C, VString [])])))
               ([] :: 64 word heap)
      = (Some (Errorf_field ''Level'' (Errorf_decode (InvalidLevel ''verbose''))),
         Pointer (StructV [(?A, VString ''x''), (?f, VInt 4), (?C, VString [])]), [])"
    using f by (simp add: halted_def fields_of_def)
  from dec 2 have two: "\<exists>dec. decoder_named plainlib ''slog.Level'' = Some dec
      \<and> dec ''verbose'' = (LevelInfo :: 64 word val, Some (InvalidLevel ''verbose''))"
    by (intro exI [of _ dec]) simp
  from 1 two 3 4 show ?thesis by simp
qed



text \<open>
  C8. Every annotation is a name without comma alone, or such a name, a comma and a
  second segment without comma, possibly followed by a comma and more. In each case the
  variable name is the first segment, and the field is required exactly when there is a
  second segment and it is the string "required" byte for byte. A second segment that
  makes the field not required is ignored: \<open>decodeField\<close> gives what it gives for the
  name alone. When the variable does not resolve, \<open>decodeField\<close> fails with the
  field-required error exactly when the binding is required.
\<close>

theorem binding_parses_annotation:
  "(CHR '','' \<notin> set name \<longrightarrow> binding name = (name, False))
   \<and> (CHR '','' \<notin> set name \<and> CHR '','' \<notin> set seg \<longrightarrow>
        binding (name @ CHR '','' # seg) = (name, seg = ''required'')
      \<and> binding (name @ CHR '','' # seg @ CHR '','' # rest) = (name, seg = ''required''))
   \<and> (tag \<noteq> [] \<and> fst (binding tag) \<noteq> [] \<and> \<not> snd (binding tag) \<longrightarrow>
        decodeField lib os (field\<lparr>Tag := tag\<rparr>)
          = (decodeField lib os (field\<lparr>Tag := fst (binding tag)\<rparr>)
               :: ('w::len) word val option \<times> error option))
   \<and> (tag \<noteq> [] \<and> \<not> snd (fst (Read os (fst (binding tag)))) \<longrightarrow>
        decodeField lib os (field\<lparr>Tag := tag\<rparr>)
          = (None :: 'w word val option,
             if snd (binding tag) then Some (Errorf_required (fst (binding tag))) else None))"
proof (intro conjI impI)
  assume "tag \<noteq> [] \<and> \<not> snd (fst (Read os (fst (binding tag))))"
  then show "decodeField lib os (field\<lparr>Tag := tag\<rparr>)
          = (None :: 'w word val option,
             if snd (binding tag) then Some (Errorf_required (fst (binding tag))) else None)"
    by (cases "binding tag"; cases "fst (Read os (fst (binding tag)))")
       (simp add: decodeField_def)
qed (simp_all add: binding_one_segment binding_two_segments binding_more_segments
       decodeField_ignores_other_segment)

theorem binding_parses_annotation_witness:
  "binding ''NAME'' = (''NAME'', False)
   \<and> binding ''NAME,required'' = (''NAME'', True)
   \<and> binding ''NAME, required'' = (''NAME'', False)
   \<and> binding ''NAME,required,x'' = (''NAME'', True)
   \<and> decodeField plainlib (os_of [(''A'', ''x'')] []) (exported ''F'' T_string ''A,omitempty'')
       = (Some (VString ''x'' :: 64 word val), None)
   \<and> decodeField plainlib (os_of [] []) (exported ''F'' T_string ''A,required'')
       = (None :: 64 word val option, Some (Errorf_required ''A''))"
proof -
  have b0: "binding ''A,omitempty'' = (''A'', False)" "binding ''A,required'' = (''A'', True)"
    by (simp_all add: binding_def)
  have h3: "''A,omitempty'' \<noteq> [] \<and> fst (binding ''A,omitempty'') \<noteq> []
      \<and> \<not> snd (binding ''A,omitempty'')"
    by (simp add: b0)
  have h4: "''A,required'' \<noteq> [] \<and> \<not> snd (fst (Read (os_of [] []) (fst (binding ''A,required''))))"
    by (simp add: b0 Read_def os_LookupEnv_def os_of_def)
  have plain: "decodeField plainlib (os_of [(''A'', ''x'')] []) (exported ''F'' T_string ''A'')
       = (Some (VString ''x'' :: 64 word val), None)"
    by (simp add: ev_defs)
  have upd: "(exported ''F'' T_string ''A'')\<lparr>Tag := ''A,omitempty''\<rparr> = exported ''F'' T_string ''A,omitempty''"
    "(exported ''F'' T_string ''A'')\<lparr>Tag := ''A''\<rparr> = exported ''F'' T_string ''A''"
    "(exported ''F'' T_string ''A'')\<lparr>Tag := ''A,required''\<rparr> = exported ''F'' T_string ''A,required''"
    by (simp_all add: exported_def)
  from binding_parses_annotation
    [of "''NAME''" "''required''" "''x''" "''A,omitempty''" plainlib "os_of [(''A'', ''x'')] []"
        "exported ''F'' T_string ''A''", where ?'w = 64]
  have 1: "binding ''NAME'' = (''NAME'', False)" "binding ''NAME,required'' = (''NAME'', True)"
     "binding ''NAME,required,x'' = (''NAME'', True)"
     "decodeField plainlib (os_of [(''A'', ''x'')] []) (exported ''F'' T_string ''A,omitempty'')
       = (Some (VString ''x'' :: 64 word val), None)"
    using h3 plain by (simp_all add: b0 upd)
  from binding_parses_annotation
    [of "''NAME''" "'' required''" "''x''" "''A,required''" plainlib "os_of [] []"
        "exported ''F'' T_string ''A''", where ?'w = 64]
  have 2: "binding ''NAME, required'' = (''NAME'', False)"
     "decodeField plainlib (os_of [] []) (exported ''F'' T_string ''A,required'')
       = (None :: 64 word val option, Some (Errorf_required ''A''))"
    using h4 by (simp_all add: b0 upd)
  from 1 2 show ?thesis by simp
qed

text \<open>
  C9. For an argument that is not a pointer (the nil interface included) or is a nil
  pointer, populate returns the not-a-pointer error; for a pointer to a value that is not
  a structure it returns the not-a-pointer-to-structure error. In both cases the argument
  and the heap are returned as they were.
\<close>

theorem ReadStruct_rejects_invalid_target:
  "(arg_Kind v \<noteq> Ptr \<or> arg_IsNil v \<longrightarrow>
      ReadStruct lib os v h = (Some (Sentinel ErrNotPtr), v, h))
   \<and> (pointee_Kind p \<noteq> Struct \<longrightarrow>
        ReadStruct lib os (Pointer p) h = (Some (Sentinel ErrNotStructPtr), Pointer p, h))"
  by (simp add: ReadStruct_def)

theorem ReadStruct_rejects_invalid_target_witness:
  "ReadStruct plainlib (os_of [] []) NilInterface ([] :: 64 word heap)
     = (Some (Sentinel ErrNotPtr), NilInterface, [])
   \<and> ReadStruct plainlib (os_of [] []) (NonPointer Struct) ([] :: 64 word heap)
     = (Some (Sentinel ErrNotPtr), NonPointer Struct, [])
   \<and> ReadStruct plainlib (os_of [] []) NilPointer ([] :: 64 word heap)
     = (Some (Sentinel ErrNotPtr), NilPointer, [])
   \<and> ReadStruct plainlib (os_of [] []) (Pointer (OtherV Slice)) ([] :: 64 word heap)
     = (Some (Sentinel ErrNotStructPtr), Pointer (OtherV Slice), [])"
  using
    ReadStruct_rejects_invalid_target [of "NilInterface :: 64 word arg" plainlib "os_of [] []" "[]" "OtherV Slice"]
    ReadStruct_rejects_invalid_target [of "NonPointer Struct :: 64 word arg" plainlib "os_of [] []" "[]" "OtherV Slice"]
    ReadStruct_rejects_invalid_target [of "NilPointer :: 64 word arg" plainlib "os_of [] []" "[]" "OtherV Slice"]
  by simp

text \<open>
  C10. Whatever the width of the platform's native integers: on every optionally signed
  base-10 numeral whose number lies in the signed 64-bit range, the \<open>int\<close> decoder
  returns no error and that number converted to the native \<open>int\<close>; on every unsigned
  base-10 numeral whose number lies in the unsigned 64-bit range, the \<open>uint\<close> decoder
  returns no error and that number converted to the native \<open>uint\<close>. An instance is a
  platform of 32-bit integers, where "3000000000" decodes without error to the \<open>int\<close>
  that reads -1294967296.
\<close>

theorem native_integer_decoders_check_64_bits:
  "(signed_decimal s \<and> - (2 ^ 63) \<le> signed_decimal_value s \<and> signed_decimal_value s < 2 ^ 63 \<longrightarrow>
      (\<exists>dec. decoder_named lib ''int'' = Some dec
         \<and> dec s = (VInt (of_int (signed_decimal_value s)) :: ('w::len) word val, None)))
   \<and> (decimal s \<and> decimal_value s < 2 ^ 64 \<longrightarrow>
      (\<exists>dec. decoder_named lib ''uint'' = Some dec
         \<and> dec s = (VUint (of_nat (decimal_value s)) :: 'w word val, None)))"
  by (simp add: decoder_named_int ParseInt_decimal ParseUint_decimal scast_int64 ucast_uint64)

theorem native_integer_decoders_check_64_bits_witness:
  "(\<exists>dec. decoder_named plainlib ''int'' = Some dec
      \<and> dec ''3000000000'' = (VInt 3000000000 :: 32 word val, None))
   \<and> (\<exists>dec. decoder_named plainlib ''int'' = Some dec
      \<and> dec ''-9223372036854775808'' = (VInt (- 9223372036854775808) :: 64 word val, None))
   \<and> (\<exists>dec. decoder_named plainlib ''uint'' = Some dec
      \<and> dec ''18446744073709551615'' = (VUint 18446744073709551615 :: 32 word val, None))
   \<and> sint (3000000000 :: 32 word) = - 1294967296
   \<and> unat (18446744073709551615 :: 32 word) = 4294967295"
proof -
  have v1: "decimal ''3000000000''" "decimal_value ''3000000000'' = 3000000000"
    by (simp_all add: decimal_def is_digit_def decimal_value_def decimal_acc_def digit_value_def)
  have v2: "decimal ''9223372036854775808''"
    "decimal_value ''9223372036854775808'' = 9223372036854775808"
    by (simp_all add: decimal_def is_digit_def decimal_value_def decimal_acc_def digit_value_def)
  have v3: "decimal ''18446744073709551615''"
    "decimal_value ''18446744073709551615'' = 18446744073709551615"
    by (simp_all add: decimal_def is_digit_def decimal_value_def decimal_acc_def digit_value_def)
  have s1: "signed_decimal ''3000000000''" "signed_decimal_value ''3000000000'' = 3000000000"
    using v1 by (simp_all add: signed_decimal_def signed_decimal_value_def)
  have s2: "signed_decimal ''-9223372036854775808''"
    "signed_decimal_value ''-9223372036854775808'' = - 9223372036854775808"
    using v2 by (simp_all add: signed_decimal_def signed_decimal_value_def)
  from native_integer_decoders_check_64_bits [where ?'w = 32, of "''3000000000''" plainlib] s1
  have 1: "\<exists>dec. decoder_named plainlib ''int'' = Some dec
      \<and> dec ''3000000000'' = (VInt 3000000000 :: 32 word val, None)"
    by simp
  from native_integer_decoders_check_64_bits [where ?'w = 64, of "''-9223372036854775808''" plainlib] s2
  have 2: "\<exists>dec. decoder_named plainlib ''int'' = Some dec
      \<and> dec ''-9223372036854775808'' = (VInt (- 9223372036854775808) :: 64 word val, None)"
    by simp
  from native_integer_decoders_check_64_bits [where ?'w = 32, of "''18446744073709551615''" plainlib] v3
  have 3: "\<exists>dec. decoder_named plainlib ''uint'' = Some dec
      \<and> dec ''18446744073709551615'' = (VUint 18446744073709551615 :: 32 word val, None)"
    by simp
  have 4: "sint (3000000000 :: 32 word) = - 1294967296"
    "unat (18446744073709551615 :: 32 word) = 4294967295"
    by simp_all
  from 1 2 3 4 show ?thesis by blast
qed

end
